theory Spec2Isabelle
  imports Complex_Main "HOL-Library.Sublist"
begin


section \<open>Positioning heuristic: calculateSmartPosition, hasPositionConflict, findNonConflictingPosition\<close>

text \<open>
  JavaScript numbers are idealised as real numbers: rounding of IEEE doubles, NaN and the
  infinities are outside the model.  Of a \<open>NetworkNode\<close> the heuristic reads the position
  only; id and type tag are kept to tell nodes apart.  The attempt limit of the search is a
  count, a natural number.
\<close>

record position =
  pos_x :: real
  pos_y :: real

record NetworkNode =
  node_id :: string
  node_type :: "string option"
  node_position :: position

record viewport =
  vp_x :: real
  vp_y :: real
  vp_zoom :: real

text \<open>The browser globals \<open>window.innerWidth\<close> and \<open>window.innerHeight\<close>.\<close>

record window =
  innerWidth :: real
  innerHeight :: real

text \<open>\<open>Math.min(...vs)\<close> and \<open>Math.max(...vs)\<close> on a spread with a first element.\<close>

fun Math_min :: "real list \<Rightarrow> real" where
  "Math_min (v # vs) = fold min vs v"
| "Math_min [] = undefined"

fun Math_max :: "real list \<Rightarrow> real" where
  "Math_max (v # vs) = fold max vs v"
| "Math_max [] = undefined"

definition calculateSmartPosition ::
  "window \<Rightarrow> NetworkNode list \<Rightarrow> NetworkNode list \<Rightarrow> viewport option \<Rightarrow> position" where
  "calculateSmartPosition win relatedNodes allNodes vp =
     (if length relatedNodes = 0 then
        (case vp of
           Some v \<Rightarrow>
             \<lparr>pos_x = - vp_x v / vp_zoom v + (innerWidth win / 2) / vp_zoom v,
              pos_y = - vp_y v / vp_zoom v + (innerHeight win / 2) / vp_zoom v\<rparr>
         | None \<Rightarrow> \<lparr>pos_x = 0, pos_y = 0\<rparr>)
      else if length relatedNodes = 1 then
        (let relatedNode = relatedNodes ! 0; offset = 300 in
           \<lparr>pos_x = pos_x (node_position relatedNode) + offset,
            pos_y = pos_y (node_position relatedNode) + offset * 0.5\<rparr>)
      else
        (let positions = map node_position relatedNodes;
             minX = Math_min (map pos_x positions);
             maxX = Math_max (map pos_x positions);
             minY = Math_min (map pos_y positions);
             maxY = Math_max (map pos_y positions);
             centerX = (minX + maxX) / 2;
             centerY = (minY + maxY) / 2;
             offset = 250 in
           \<lparr>pos_x = centerX + offset, pos_y = centerY + offset\<rparr>))"

definition hasPositionConflict :: "position \<Rightarrow> NetworkNode list \<Rightarrow> real \<Rightarrow> bool" where
  "hasPositionConflict p allNodes minDistance =
     list_ex (\<lambda>node.
        let dx = pos_x (node_position node) - pos_x p;
            dy = pos_y (node_position node) - pos_y p;
            distance = sqrt (dx * dx + dy * dy)
        in distance < minDistance) allNodes"

text \<open>The default of the \<open>minDistance\<close> parameter, used by the loop below.\<close>

definition minDistance_default :: real where
  "minDistance_default = 200"

definition maxAttempts_default :: nat where
  "maxAttempts_default = 10"

text \<open>One pass through the body of the \<open>while\<close> loop: the candidate computed from the
  current value of \<open>attempts\<close>.\<close>

definition spiral_candidate :: "position \<Rightarrow> nat \<Rightarrow> position" where
  "spiral_candidate desiredPosition attempts =
     (let step = 150;
          angle = (real attempts * 45) * (pi / 180);
          radius = step * (1 + real (attempts div 8))
      in \<lparr>pos_x = pos_x desiredPosition + radius * cos angle,
          pos_y = pos_y desiredPosition + radius * sin angle\<rparr>)"

text \<open>The loop, on its two variables \<open>position\<close> and \<open>attempts\<close>; it returns both at exit.\<close>

function spiral_loop ::
  "position \<Rightarrow> NetworkNode list \<Rightarrow> nat \<Rightarrow> position \<Rightarrow> nat \<Rightarrow> position \<times> nat" where
  "spiral_loop desiredPosition allNodes maxAttempts p attempts =
     (if hasPositionConflict p allNodes minDistance_default \<and> attempts < maxAttempts
      then spiral_loop desiredPosition allNodes maxAttempts
             (spiral_candidate desiredPosition attempts) (attempts + 1)
      else (p, attempts))"
  by pat_completeness auto
termination
  by (relation "measure (\<lambda>(d, ns, m, p, a). m - a)") auto

declare spiral_loop.simps [simp del]

text \<open>An omitted \<open>maxAttempts\<close> argument takes the default.\<close>

definition maxAttempts_of :: "nat option \<Rightarrow> nat" where
  "maxAttempts_of maxAttempts = (case maxAttempts of None \<Rightarrow> maxAttempts_default | Some m \<Rightarrow> m)"

definition findNonConflictingPosition ::
  "position \<Rightarrow> NetworkNode list \<Rightarrow> nat option \<Rightarrow> position" where
  "findNonConflictingPosition desiredPosition allNodes maxAttempts =
     fst (spiral_loop desiredPosition allNodes (maxAttempts_of maxAttempts) desiredPosition 0)"

text \<open>The number of times the loop body ran.\<close>

definition findNonConflictingPosition_iterations ::
  "position \<Rightarrow> NetworkNode list \<Rightarrow> nat option \<Rightarrow> nat" where
  "findNonConflictingPosition_iterations desiredPosition allNodes maxAttempts =
     snd (spiral_loop desiredPosition allNodes (maxAttempts_of maxAttempts) desiredPosition 0)"

subsection \<open>Specification side\<close>

text \<open>The bounding box of a non-empty set of points and its centre.\<close>

definition bbox_center :: "position set \<Rightarrow> position" where
  "bbox_center P =
     \<lparr>pos_x = (Min (pos_x ` P) + Max (pos_x ` P)) / 2,
      pos_y = (Min (pos_y ` P) + Max (pos_y ` P)) / 2\<rparr>"

text \<open>The point of the flow plane that the viewport transform
  \<open>screen = flow * zoom + (x, y)\<close> sends to the middle of the window.\<close>

definition is_viewport_center :: "window \<Rightarrow> viewport \<Rightarrow> position \<Rightarrow> bool" where
  "is_viewport_center win v p \<longleftrightarrow>
     pos_x p * vp_zoom v + vp_x v = innerWidth win / 2 \<and>
     pos_y p * vp_zoom v + vp_y v = innerHeight win / 2"

text \<open>The \<open>k\<close>-th candidate of the loop, counted from the desired point itself.\<close>

definition loop_candidate :: "position \<Rightarrow> nat \<Rightarrow> position" where
  "loop_candidate d k = (if k = 0 then d else spiral_candidate d (k - 1))"

text \<open>A sample node for concrete runs.\<close>

definition node_at :: "string \<Rightarrow> real \<Rightarrow> real \<Rightarrow> NetworkNode" where
  "node_at i a b = \<lparr>node_id = i, node_type = Some ''custom'', node_position = \<lparr>pos_x = a, pos_y = b\<rparr>\<rparr>"

section \<open>Graph store and the save route (app/api/dag/[id]/route.ts, POST)\<close>

text \<open>
  The tables the save route reads and writes, as lists of rows.  Primary keys are the
  \<open>id\<close> columns.  The foreign keys of \<open>DAGEdge.sourceId\<close> and \<open>DAGEdge.targetId\<close> are
  declared \<open>ON DELETE CASCADE\<close> by the table definition of the repository (the
  \<open>CREATE TABLE "DAGEdge"\<close> statement), so deleting a node row removes the edge rows that
  reference it, and an edge row can only be inserted when both nodes exist.
\<close>

record Role =
  role_id :: string
  role_name :: string
  role_category :: string

record Entity =
  entity_id :: string
  entity_name :: string
  entity_roleId :: string
  entity_entityType :: string
  entity_description :: "string option"
  entity_avatar :: "string option"

record DAGNode =
  dn_id :: string
  dn_dagId :: string
  dn_entityId :: string
  dn_x :: real
  dn_y :: real
  dn_category :: "string option"
  dn_type :: "string option"

record DAGEdge =
  de_id :: string
  de_dagId :: string
  de_sourceId :: string
  de_targetId :: string
  de_relationshipTypeId :: "string option"
  de_label :: "string option"
  de_sourceHandle :: "string option"
  de_targetHandle :: "string option"
  de_createdFromEventId :: "string option"

record graph_store =
  dagIds :: "string list"
  roles :: "Role list"
  entities :: "Entity list"
  relationshipTypeIds :: "string list"
  dagNodes :: "DAGNode list"
  dagEdges :: "DAGEdge list"

text \<open>The request body: nodes and edges as the client sends them.  An absent or
  non-string field is \<open>None\<close>; the empty string is falsy as in JavaScript.\<close>

record client_node =
  cn_id :: string
  cn_type :: "string option"
  cn_position :: "position option"
  cn_entityId :: "string option"
  cn_category :: "string option"

record client_edge =
  ce_id :: string
  ce_source :: string
  ce_target :: string
  ce_relationshipTypeId :: "string option"
  ce_label :: "string option"
  ce_sourceHandle :: "string option"
  ce_targetHandle :: "string option"

text \<open>An error response: HTTP status and the \<open>error\<close> field of the JSON body.\<close>

type_synonym failure = "nat \<times> string"

text \<open>What the transaction body can throw: a plain \<open>Error\<close> with its message, or a
  Prisma error with its code.\<close>

datatype exn = JsError string | PrismaError string

text \<open>\<open>v || null\<close> on an optional string.\<close>

definition or_null :: "string option \<Rightarrow> string option" where
  "or_null v = (case v of None \<Rightarrow> None | Some s \<Rightarrow> if s = [] then None else Some s)"

text \<open>\<open>toLowerCase\<close> on code units below 256: the letters A to Z and the accented capitals
  of Latin-1 move up by 32.\<close>

definition lower_char :: "char \<Rightarrow> char" where
  "lower_char c =
     (let n = (of_char c :: nat) in
      if (65 \<le> n \<and> n \<le> 90) \<or> (192 \<le> n \<and> n \<le> 222 \<and> n \<noteq> 215) then char_of (n + 32) else c)"

definition toLowerCase :: "string \<Rightarrow> string" where
  "toLowerCase s = map lower_char s"

text \<open>\<open>s.includes(k)\<close>.\<close>

definition str_includes :: "string \<Rightarrow> string \<Rightarrow> bool" where
  "str_includes s k = sublist k s"

definition findUnique_entity :: "graph_store \<Rightarrow> string \<Rightarrow> Entity option" where
  "findUnique_entity tx i = find (\<lambda>e. entity_id e = i) (entities tx)"

definition roleLink :: "graph_store \<Rightarrow> Entity \<Rightarrow> Role option" where
  "roleLink tx e = find (\<lambda>r. role_id r = entity_roleId e) (roles tx)"

text \<open>The filter of \<open>dAGNode.deleteMany\<close>: the graph's rows whose id was not sent and
  whose type is not \<open>root\<close>.  A \<open>NULL\<close> type does not satisfy \<open>not: "root"\<close>.\<close>

definition node_delete_filter :: "string \<Rightarrow> string list \<Rightarrow> DAGNode \<Rightarrow> bool" where
  "node_delete_filter dagId sentNodeIds n \<longleftrightarrow>
     dn_dagId n = dagId \<and> dn_id n \<notin> set sentNodeIds
     \<and> (case dn_type n of None \<Rightarrow> False | Some t \<Rightarrow> t \<noteq> ''root'')"

definition deleteMany_nodes :: "string \<Rightarrow> string list \<Rightarrow> graph_store \<Rightarrow> graph_store" where
  "deleteMany_nodes dagId sentNodeIds tx =
     (let gone = map dn_id (filter (node_delete_filter dagId sentNodeIds) (dagNodes tx)) in
      tx\<lparr>dagNodes := filter (\<lambda>n. \<not> node_delete_filter dagId sentNodeIds n) (dagNodes tx),
         dagEdges := filter (\<lambda>e. de_sourceId e \<notin> set gone \<and> de_targetId e \<notin> set gone) (dagEdges tx)\<rparr>)"

definition deleteMany_edges :: "string \<Rightarrow> string list \<Rightarrow> graph_store \<Rightarrow> graph_store" where
  "deleteMany_edges dagId sentEdgeIds tx =
     tx\<lparr>dagEdges := filter (\<lambda>e. \<not> (de_dagId e = dagId \<and> de_id e \<notin> set sentEdgeIds)) (dagEdges tx)\<rparr>"

text \<open>The node type written by the save: \<open>root\<close> when the client says so, otherwise
  derived from the name of the entity's role.\<close>

definition save_nodeType :: "graph_store \<Rightarrow> client_node \<Rightarrow> Entity \<Rightarrow> string" where
  "save_nodeType tx node entity =
     (let isRootNode = (cn_type node = Some ''root'') in
      if isRootNode then ''root''
      else
        (let roleName = (case roleLink tx entity of None \<Rightarrow> '''' | Some r \<Rightarrow> toLowerCase (role_name r)) in
         if str_includes roleName ''evidence leader'' \<or> str_includes roleName ''evidenceleader''
         then ''evidenceLeader'' else ''custom''))"

text \<open>\<open>dAGNode.upsert\<close>: the \<open>update\<close> clause on an existing id, the \<open>create\<close> clause
  otherwise.\<close>

definition upsert_node ::
  "string \<Rightarrow> string \<Rightarrow> string \<Rightarrow> real \<Rightarrow> real \<Rightarrow> string option \<Rightarrow> string \<Rightarrow> graph_store \<Rightarrow> graph_store" where
  "upsert_node nid dagId entityId finalX finalY category nodeType tx =
     (if nid \<in> set (map dn_id (dagNodes tx))
      then tx\<lparr>dagNodes :=
             map (\<lambda>n. if dn_id n = nid
                       then n\<lparr>dn_x := finalX, dn_y := finalY, dn_category := category,
                              dn_type := Some nodeType\<rparr>
                       else n) (dagNodes tx)\<rparr>
      else tx\<lparr>dagNodes := dagNodes tx @
             [\<lparr>dn_id = nid, dn_dagId = dagId, dn_entityId = entityId, dn_x = finalX, dn_y = finalY,
               dn_category = category, dn_type = Some nodeType\<rparr>]\<rparr>)"

text \<open>The body of the loop over the client's nodes.\<close>

definition save_node :: "string \<Rightarrow> client_node \<Rightarrow> graph_store \<Rightarrow> exn + graph_store" where
  "save_node dagId node tx =
     (case cn_entityId node of
        None \<Rightarrow> Inl (PrismaError ''validation'')
      | Some entityId \<Rightarrow>
         (case findUnique_entity tx entityId of
            None \<Rightarrow> Inl (JsError (''Entity '' @ entityId @ '' not found for node '' @ cn_id node))
          | Some entity \<Rightarrow>
             (let isRootNode = (cn_type node = Some ''root'') in
              case (if isRootNode then Some \<lparr>pos_x = 0, pos_y = 0\<rparr> else cn_position node) of
                None \<Rightarrow> Inl (JsError ''TypeError'')
              | Some final \<Rightarrow>
                  Inr (upsert_node (cn_id node) dagId entityId (pos_x final) (pos_y final)
                         (or_null (cn_category node)) (save_nodeType tx node entity) tx))))"

fun save_nodes :: "string \<Rightarrow> client_node list \<Rightarrow> graph_store \<Rightarrow> exn + graph_store" where
  "save_nodes dagId [] tx = Inr tx"
| "save_nodes dagId (node # rest) tx =
     (case save_node dagId node tx of
        Inl e \<Rightarrow> Inl e
      | Inr tx' \<Rightarrow> save_nodes dagId rest tx')"

text \<open>\<open>dAGEdge.upsert\<close>, with the foreign keys of the row checked by the database.\<close>

definition fk_relationshipType :: "graph_store \<Rightarrow> string option \<Rightarrow> bool" where
  "fk_relationshipType tx r = (case r of None \<Rightarrow> True | Some i \<Rightarrow> i \<in> set (relationshipTypeIds tx))"

definition upsert_edge ::
  "string \<Rightarrow> client_edge \<Rightarrow> string option \<Rightarrow> string option \<Rightarrow> graph_store \<Rightarrow> exn + graph_store" where
  "upsert_edge dagId edge relationshipTypeId label tx =
     (if \<not> fk_relationshipType tx relationshipTypeId then Inl (PrismaError ''P2003'')
      else if ce_id edge \<in> set (map de_id (dagEdges tx))
      then Inr (tx\<lparr>dagEdges :=
             map (\<lambda>e. if de_id e = ce_id edge
                       then e\<lparr>de_relationshipTypeId := relationshipTypeId, de_label := label,
                              de_sourceHandle := or_null (ce_sourceHandle edge),
                              de_targetHandle := or_null (ce_targetHandle edge)\<rparr>
                       else e) (dagEdges tx)\<rparr>)
      else if ce_source edge \<notin> set (map dn_id (dagNodes tx))
              \<or> ce_target edge \<notin> set (map dn_id (dagNodes tx))
      then Inl (PrismaError ''P2003'')
      else Inr (tx\<lparr>dagEdges := dagEdges tx @
             [\<lparr>de_id = ce_id edge, de_dagId = dagId, de_sourceId = ce_source edge,
               de_targetId = ce_target edge, de_relationshipTypeId = relationshipTypeId,
               de_label = label, de_sourceHandle = or_null (ce_sourceHandle edge),
               de_targetHandle = or_null (ce_targetHandle edge),
               de_createdFromEventId = None\<rparr>]\<rparr>))"

definition save_edge :: "string \<Rightarrow> client_edge \<Rightarrow> graph_store \<Rightarrow> exn + graph_store" where
  "save_edge dagId edge tx =
     (if ce_id edge = [] then Inl (JsError ''Invalid edge structure: missing id'')
      else if ce_source edge = [] \<or> ce_target edge = []
      then Inl (JsError (''Edge '' @ ce_id edge @ '' is missing required source or target''))
      else
        (let relationshipTypeId = or_null (ce_relationshipTypeId edge);
             label = (if relationshipTypeId \<noteq> None then None else or_null (ce_label edge))
         in upsert_edge dagId edge relationshipTypeId label tx))"

fun save_edges :: "string \<Rightarrow> client_edge list \<Rightarrow> graph_store \<Rightarrow> exn + graph_store" where
  "save_edges dagId [] tx = Inr tx"
| "save_edges dagId (edge # rest) tx =
     (case save_edge dagId edge tx of
        Inl e \<Rightarrow> Inl e
      | Inr tx' \<Rightarrow> save_edges dagId rest tx')"

text \<open>The transaction body: node deletion, node upserts, edge deletion, edge upserts.  A
  thrown error leaves the store as it was (the caller keeps the old store).\<close>

definition save_transaction ::
  "string \<Rightarrow> client_node list \<Rightarrow> client_edge list \<Rightarrow> graph_store \<Rightarrow> exn + graph_store" where
  "save_transaction dagId nodes edges tx =
     (let sentNodeIds = map cn_id nodes;
          tx1 = (if length sentNodeIds > 0 then deleteMany_nodes dagId sentNodeIds tx else tx)
      in case save_nodes dagId nodes tx1 of
           Inl e \<Rightarrow> Inl e
         | Inr tx2 \<Rightarrow>
            (let sentEdgeIds = map ce_id edges;
                 tx3 = (if length sentEdgeIds > 0 then deleteMany_edges dagId sentEdgeIds tx2 else tx2)
             in save_edges dagId edges tx3))"

fun validate_nodes :: "client_node list \<Rightarrow> failure option" where
  "validate_nodes [] = None"
| "validate_nodes (node # rest) =
     (if cn_id node = [] then Some (400, ''Invalid node structure: missing id'')
      else if or_null (cn_entityId node) = None
      then Some (400, ''Node '' @ cn_id node @ '' is missing required entityId'')
      else if cn_position node = None
      then Some (400, ''Node '' @ cn_id node @ '' has invalid position data'')
      else validate_nodes rest)"

fun validate_edges :: "client_edge list \<Rightarrow> failure option" where
  "validate_edges [] = None"
| "validate_edges (edge # rest) =
     (if ce_id edge = [] then Some (400, ''Invalid edge structure: missing id'')
      else if ce_source edge = [] \<or> ce_target edge = []
      then Some (400, ''Edge '' @ ce_id edge @ '' is missing required source or target'')
      else validate_edges rest)"

text \<open>The \<open>catch\<close> clause of the route.\<close>

definition save_catch :: "exn \<Rightarrow> failure" where
  "save_catch e =
     (case e of
        PrismaError code \<Rightarrow>
          if code = ''P2028''
          then (500, ''Transaction failed - the database operation was interrupted. Please try again.'')
          else if take 1 code = ''P'' then (500, ''Database error occurred'')
          else (500, ''Failed to save DAG'')
      | JsError m \<Rightarrow> (500, ''Failed to save DAG''))"

definition POST_save ::
  "graph_store \<Rightarrow> string \<Rightarrow> client_node list \<Rightarrow> client_edge list \<Rightarrow> (failure + unit) \<times> graph_store" where
  "POST_save st dagId nodes edges =
     (if dagId \<notin> set (dagIds st) then (Inl (404, ''DAG not found''), st)
      else case validate_nodes nodes of
        Some f \<Rightarrow> (Inl f, st)
      | None \<Rightarrow>
         (case validate_edges edges of
            Some f \<Rightarrow> (Inl f, st)
          | None \<Rightarrow>
             (case save_transaction dagId nodes edges st of
                Inl e \<Rightarrow> (Inl (save_catch e), st)
              | Inr st' \<Rightarrow> (Inr (), st'))))"

text \<open>A sequence of save calls, each given as graph id, node list and edge list.\<close>

fun save_calls :: "graph_store \<Rightarrow> (string \<times> client_node list \<times> client_edge list) list \<Rightarrow> graph_store" where
  "save_calls st [] = st"
| "save_calls st ((dagId, nodes, edges) # rest) = save_calls (snd (POST_save st dagId nodes edges)) rest"

subsection \<open>Specification side\<close>

definition is_root :: "DAGNode \<Rightarrow> bool" where
  "is_root n \<longleftrightarrow> dn_type n = Some ''root''"

text \<open>The root nodes of one graph.\<close>

definition roots_of :: "graph_store \<Rightarrow> string \<Rightarrow> DAGNode list" where
  "roots_of st g = filter (\<lambda>n. dn_dagId n = g \<and> is_root n) (dagNodes st)"

definition root_ids :: "graph_store \<Rightarrow> string list" where
  "root_ids st = map dn_id (filter is_root (dagNodes st))"

text \<open>Id and graph of every root node, in table order.\<close>

definition root_keys :: "graph_store \<Rightarrow> (string \<times> string) list" where
  "root_keys st = map (\<lambda>n. (dn_id n, dn_dagId n)) (filter is_root (dagNodes st))"

text \<open>Primary keys are unique.\<close>

definition keys_ok :: "graph_store \<Rightarrow> bool" where
  "keys_ok st \<longleftrightarrow> distinct (map dn_id (dagNodes st)) \<and> distinct (map de_id (dagEdges st))"

definition roots_at_origin :: "graph_store \<Rightarrow> bool" where
  "roots_at_origin st \<longleftrightarrow> list_all (\<lambda>n. is_root n \<longrightarrow> dn_x n = 0 \<and> dn_y n = 0) (dagNodes st)"

text \<open>A client list labels as \<open>root\<close> exactly the nodes whose id is in \<open>R\<close>.\<close>

definition root_hints_match :: "string list \<Rightarrow> client_node list \<Rightarrow> bool" where
  "root_hints_match R nodes \<longleftrightarrow> list_all (\<lambda>c. (cn_type c = Some ''root'') = (cn_id c \<in> set R)) nodes"

text \<open>Two node rows agree on every column but position, category and type; two edge rows
  agree on every column but relationship type, label and handles.\<close>

definition node_frame :: "DAGNode \<Rightarrow> DAGNode \<Rightarrow> bool" where
  "node_frame n n' \<longleftrightarrow>
     dn_id n' = dn_id n \<and> dn_dagId n' = dn_dagId n \<and> dn_entityId n' = dn_entityId n"

definition edge_frame :: "DAGEdge \<Rightarrow> DAGEdge \<Rightarrow> bool" where
  "edge_frame e e' \<longleftrightarrow>
     de_id e' = de_id e \<and> de_dagId e' = de_dagId e \<and> de_sourceId e' = de_sourceId e
     \<and> de_targetId e' = de_targetId e \<and> de_createdFromEventId e' = de_createdFromEventId e"

subsection \<open>Sample data\<close>

definition sample_role :: Role where
  "sample_role = \<lparr>role_id = ''role1'', role_name = ''Root'', role_category = ''official''\<rparr>"

definition sample_entity :: "string \<Rightarrow> Entity" where
  "sample_entity i = \<lparr>entity_id = i, entity_name = ''Name'', entity_roleId = ''role1'',
     entity_entityType = ''organization'', entity_description = None, entity_avatar = None\<rparr>"

definition sample_node :: "string \<Rightarrow> string \<Rightarrow> string \<Rightarrow> real \<Rightarrow> real \<Rightarrow> DAGNode" where
  "sample_node i ent t a b = \<lparr>dn_id = i, dn_dagId = ''g1'', dn_entityId = ent, dn_x = a, dn_y = b,
     dn_category = None, dn_type = Some t\<rparr>"

definition sample_edge :: "string \<Rightarrow> string \<Rightarrow> string \<Rightarrow> DAGEdge" where
  "sample_edge i s t = \<lparr>de_id = i, de_dagId = ''g1'', de_sourceId = s, de_targetId = t,
     de_relationshipTypeId = None, de_label = Some ''knows'', de_sourceHandle = None,
     de_targetHandle = None, de_createdFromEventId = None\<rparr>"

text \<open>One graph with its root, two further nodes and one edge between them.\<close>

definition sample_store :: graph_store where
  "sample_store = \<lparr>dagIds = [''g1''], roles = [sample_role],
     entities = [sample_entity ''e0'', sample_entity ''e1'', sample_entity ''e2''],
     relationshipTypeIds = [],
     dagNodes = [sample_node ''r'' ''e0'' ''root'' 0 0, sample_node ''n1'' ''e1'' ''custom'' 100 50,
                 sample_node ''n2'' ''e2'' ''custom'' 400 200],
     dagEdges = [sample_edge ''x1'' ''n1'' ''n2'']\<rparr>"

definition sent_node :: "string \<Rightarrow> string \<Rightarrow> string \<Rightarrow> real \<Rightarrow> real \<Rightarrow> client_node" where
  "sent_node i ent t a b = \<lparr>cn_id = i, cn_type = Some t, cn_position = Some \<lparr>pos_x = a, pos_y = b\<rparr>,
     cn_entityId = Some ent, cn_category = None\<rparr>"

definition sent_edge :: "string \<Rightarrow> string \<Rightarrow> string \<Rightarrow> client_edge" where
  "sent_edge i s t = \<lparr>ce_id = i, ce_source = s, ce_target = t, ce_relationshipTypeId = None,
     ce_label = Some ''knows'', ce_sourceHandle = None, ce_targetHandle = None\<rparr>"

text \<open>Sample save calls.\<close>

definition calls_keeping_root :: "(string \<times> client_node list \<times> client_edge list) list" where
  "calls_keeping_root =
     [(''g1'', [sent_node ''r'' ''e0'' ''root'' 9 9, sent_node ''n1'' ''e1'' ''custom'' 1 2], []),
      (''g1'', [sent_node ''n1'' ''e1'' ''custom'' 3 4], [])]"

definition nodes_second_root :: "client_node list" where
  "nodes_second_root = [sent_node ''r'' ''e0'' ''root'' 0 0, sent_node ''n9'' ''e1'' ''root'' 7 7]"

definition nodes_root_relabelled :: "client_node list" where
  "nodes_root_relabelled = [sent_node ''r'' ''e0'' ''custom'' 5 5]"

definition nodes_swapped_entities :: "client_node list" where
  "nodes_swapped_entities =
     [sent_node ''r'' ''e0'' ''root'' 3 3, sent_node ''n1'' ''e2'' ''custom'' 7 7,
      sent_node ''n2'' ''e1'' ''custom'' 1 1]"

definition nodes_without_n2 :: "client_node list" where
  "nodes_without_n2 = [sent_node ''r'' ''e0'' ''root'' 0 0, sent_node ''n1'' ''e1'' ''custom'' 100 50]"

section \<open>Entity creation (app/api/entities/route.ts, POST)\<close>

text \<open>
  Strings are lists of code units below 256, one \<open>char\<close> each, so \<open>length\<close> is the
  JavaScript \<open>length\<close> for names in that range.  The request body has its four fields,
  \<open>None\<close> when a field is absent or not a string.
\<close>

record create_entity_body =
  ceb_name :: "string option"
  ceb_roleId :: "string option"
  ceb_entityType :: "string option"
  ceb_description :: "string option"

record create_entity_data =
  ced_name :: string
  ced_roleId :: string
  ced_entityType :: string
  ced_description :: "string option"

text \<open>\<open>CreateEntitySchema.parse\<close>; \<open>None\<close> stands for the thrown \<open>ZodError\<close>.\<close>

definition CreateEntitySchema_parse :: "create_entity_body \<Rightarrow> create_entity_data option" where
  "CreateEntitySchema_parse body =
     (case ceb_name body of
        None \<Rightarrow> None
      | Some name \<Rightarrow>
          if length name < 2 then None
          else
            (case ceb_roleId body of
               None \<Rightarrow> None
             | Some roleId \<Rightarrow>
                 (case ceb_entityType body of
                    None \<Rightarrow> Some \<lparr>ced_name = name, ced_roleId = roleId, ced_entityType = ''human'',
                                  ced_description = ceb_description body\<rparr>
                  | Some t \<Rightarrow>
                      if t \<in> set [''human'', ''company'', ''organization'']
                      then Some \<lparr>ced_name = name, ced_roleId = roleId, ced_entityType = t,
                                 ced_description = ceb_description body\<rparr>
                      else None)))"

text \<open>\<open>encodeURIComponent\<close> on code units below 256: letters, digits and
  \<open>- _ . ! ~ * ' ( )\<close> are kept, every other code unit becomes the percent-escaped bytes of
  its UTF-8 encoding.\<close>

definition hex_digit :: "nat \<Rightarrow> char" where
  "hex_digit n = ''0123456789ABCDEF'' ! (n mod 16)"

definition percent_byte :: "nat \<Rightarrow> string" where
  "percent_byte b = [CHR ''%'', hex_digit (b div 16), hex_digit (b mod 16)]"

definition uri_unreserved :: "char \<Rightarrow> bool" where
  "uri_unreserved c =
     (let n = (of_char c :: nat) in
      (65 \<le> n \<and> n \<le> 90) \<or> (97 \<le> n \<and> n \<le> 122) \<or> (48 \<le> n \<and> n \<le> 57)
      \<or> n \<in> set [45, 95, 46, 33, 126, 42, 39, 40, 41])"

definition encode_unit :: "char \<Rightarrow> string" where
  "encode_unit c =
     (let n = (of_char c :: nat) in
      if uri_unreserved c then [c]
      else if n < 128 then percent_byte n
      else percent_byte (192 + n div 64) @ percent_byte (128 + n mod 64))"

definition encodeURIComponent :: "string \<Rightarrow> string" where
  "encodeURIComponent s = concat (map encode_unit s)"

definition avatar_url :: "string \<Rightarrow> string" where
  "avatar_url name =
     ''https://ui-avatars.com/api/?name='' @ encodeURIComponent name @ ''&background=random''"

text \<open>The route.  The id of the new row is generated by the database and is an argument
  here; an id already in use violates the primary key, which the \<open>catch\<close> clause reports
  like every other error.\<close>

definition POST_entities ::
  "graph_store \<Rightarrow> string \<Rightarrow> create_entity_body \<Rightarrow> (failure + Entity) \<times> graph_store" where
  "POST_entities st newId body =
     (case CreateEntitySchema_parse body of
        None \<Rightarrow> (Inl (400, ''Invalid data''), st)
      | Some validData \<Rightarrow>
          (case find (\<lambda>r. role_id r = ced_roleId validData) (roles st) of
             None \<Rightarrow> (Inl (400, ''Invalid role ID''), st)
           | Some role \<Rightarrow>
               if newId \<in> set (map entity_id (entities st)) then (Inl (400, ''Invalid data''), st)
               else
                 (let entity = \<lparr>entity_id = newId, entity_name = ced_name validData,
                        entity_roleId = ced_roleId validData,
                        entity_entityType = ced_entityType validData,
                        entity_description = ced_description validData,
                        entity_avatar = Some (avatar_url (ced_name validData))\<rparr>
                  in (Inr entity, st\<lparr>entities := entities st @ [entity]\<rparr>))))"

definition body_named :: "string \<Rightarrow> create_entity_body" where
  "body_named n = \<lparr>ceb_name = Some n, ceb_roleId = Some ''role1'', ceb_entityType = None,
     ceb_description = None\<rparr>"

section \<open>Events: creation (POST of the events route) and reordering (POST of the reorder route)\<close>

text \<open>
  Dates are instants in milliseconds on the server's local time line (no change of the
  clock offset is modelled), so a calendar day is a window of 86400000 ms starting at a
  multiple of that length.
\<close>

record Event =
  ev_id :: string
  ev_title :: string
  ev_description :: "string option"
  ev_date :: "int option"
  ev_seriesDay :: "int option"
  ev_sortOrder :: int
  ev_eventTypeId :: string
  ev_dagId :: string
  ev_sourceDagId :: "string option"
  ev_sourceNodeId :: "string option"
  ev_targetNodeId :: "string option"
  ev_participantNodeIds :: "string list"
  ev_tagIds :: "string list"
  ev_createdEdgeId :: "string option"

record EventType =
  et_id :: string
  et_name :: string
  et_icon :: string
  et_color :: string

record event_store = graph_store +
  events :: "Event list"
  eventTypes :: "EventType list"
  tagIds :: "string list"

text \<open>The \<open>date\<close> field of a request: absent (or falsy), a value that \<open>new Date\<close> turns
  into an invalid date, or a value that it parses to an instant.\<close>

datatype date_field = DateAbsent | DateInvalid | DateAt int

text \<open>The body of a create request.  The route only tests its string fields for
  truthiness, so an absent field and the empty string are both \<open>''''\<close>; an absent list is
  the empty list.\<close>

record create_event_body =
  b_title :: string
  b_description :: string
  b_date :: date_field
  b_seriesDay :: "int option"
  b_tagIds :: "string list"
  b_sourceDagId :: string
  b_customTypeName :: string
  b_sourceNodeId :: string
  b_targetNodeId :: string
  b_participantNodeIds :: "string list"
  b_createEdge :: bool
  b_dagId :: string
  b_eventTypeId :: string

text \<open>The ids that the database generates for the rows a request may insert.\<close>

record fresh_ids =
  new_eventTypeId :: string
  new_eventId :: string
  new_edgeId :: string

definition is_space :: "char \<Rightarrow> bool" where
  "is_space c \<longleftrightarrow> (of_char c :: nat) \<in> set [9, 10, 11, 12, 13, 32, 160]"

definition trim :: "string \<Rightarrow> string" where
  "trim s = rev (dropWhile is_space (rev (dropWhile is_space s)))"

text \<open>\<open>v || null\<close> on a string.\<close>

definition str_or_null :: "string \<Rightarrow> string option" where
  "str_or_null s = (if s = [] then None else Some s)"

definition startOfDay :: "int \<Rightarrow> int" where
  "startOfDay t = (t div 86400000) * 86400000"

text \<open>The filter \<open>date: { gte: start of the day, lt: start of the next day }\<close>.\<close>

definition on_day :: "int \<Rightarrow> Event \<Rightarrow> bool" where
  "on_day t e \<longleftrightarrow>
     (case ev_date e of None \<Rightarrow> False
      | Some u \<Rightarrow> startOfDay t \<le> u \<and> u < startOfDay t + 86400000)"

text \<open>\<open>dAGNode.findFirst({ where: { id, dagId } })\<close>.\<close>

definition findFirst_node :: "'a graph_store_scheme \<Rightarrow> string \<Rightarrow> string \<Rightarrow> DAGNode option" where
  "findFirst_node st i dagId = find (\<lambda>n. dn_id n = i \<and> dn_dagId n = dagId) (dagNodes st)"

text \<open>The checks at the head of the create route; none of them writes.\<close>

definition event_checks :: "event_store \<Rightarrow> create_event_body \<Rightarrow> failure option" where
  "event_checks st body =
     (if b_title body = [] \<or> trim (b_title body) = [] then Some (400, ''Event title is required'')
      else if b_date body = DateAbsent \<and> (b_seriesDay body = None \<or> b_seriesDay body = Some 0)
              \<and> b_sourceDagId body = []
      then Some (400, ''Event date or series day is required'')
      else if b_eventTypeId body = [] \<and> b_customTypeName body = []
      then Some (400, ''Event type is required'')
      else if b_dagId body = [] then Some (400, ''DAG ID is required'')
      else if b_sourceNodeId body = [] \<and> b_targetNodeId body = [] \<and> b_participantNodeIds body = []
      then Some (400, ''At least one node must be linked to the event'')
      else if b_sourceNodeId body \<noteq> []
              \<and> findFirst_node st (b_sourceNodeId body) (b_dagId body) = None
      then Some (400, ''Source node not found in this DAG'')
      else if b_targetNodeId body \<noteq> []
              \<and> findFirst_node st (b_targetNodeId body) (b_dagId body) = None
      then Some (400, ''Target node not found in this DAG'')
      else None)"

text \<open>Custom type creation.  The name column of the event types is unique.\<close>

definition resolve_eventType ::
  "event_store \<Rightarrow> string \<Rightarrow> create_event_body \<Rightarrow> exn + (string \<times> event_store)" where
  "resolve_eventType st newId body =
     (if b_customTypeName body \<noteq> [] \<and> b_eventTypeId body = [] then
        (case find (\<lambda>t. et_name t = b_customTypeName body) (eventTypes st) of
           Some existingType \<Rightarrow> Inr (et_id existingType, st)
         | None \<Rightarrow>
             if trim (b_customTypeName body) \<in> set (map et_name (eventTypes st))
                \<or> newId \<in> set (map et_id (eventTypes st))
             then Inl (PrismaError ''P2002'')
             else Inr (newId,
                    st\<lparr>eventTypes := eventTypes st @
                         [\<lparr>et_id = newId, et_name = trim (b_customTypeName body),
                           et_icon = ''HelpCircle'', et_color = ''#6366f1''\<rparr>]\<rparr>))
      else Inr (b_eventTypeId body, st))"

text \<open>\<open>findMany\<close> with \<open>orderBy: { sortOrder: 'desc' }, take: 1\<close>, and the sort order
  computed from it.\<close>

definition top_sortOrder :: "Event list \<Rightarrow> Event list" where
  "top_sortOrder evs = take 1 (rev (sort_key ev_sortOrder evs))"

definition maxSortOrder :: "Event list \<Rightarrow> int" where
  "maxSortOrder found = (case found of [] \<Rightarrow> - 1 | e # _ \<Rightarrow> ev_sortOrder e)"

definition newSortOrder :: "event_store \<Rightarrow> string \<Rightarrow> int option \<Rightarrow> int option \<Rightarrow> int" where
  "newSortOrder st dagId eventDate seriesDay =
     (case eventDate of
        Some t \<Rightarrow>
          (let sameDayEvents = top_sortOrder (filter (\<lambda>e. ev_dagId e = dagId \<and> on_day t e) (events st))
           in maxSortOrder sameDayEvents + 1)
      | None \<Rightarrow>
          (case seriesDay of
             Some d \<Rightarrow>
               (let sameSeriesDayEvents =
                      top_sortOrder (filter (\<lambda>e. ev_dagId e = dagId \<and> ev_seriesDay e = Some d) (events st))
                in maxSortOrder sameSeriesDayEvents + 1)
           | None \<Rightarrow> 0))"

text \<open>\<open>event.create\<close>: the row refers to an event type, a graph, optionally a source
  graph, and connects participant nodes and tags, all of which must exist.\<close>

definition valid_ids :: "string list \<Rightarrow> string list" where
  "valid_ids ids = filter (\<lambda>i. i \<noteq> [] \<and> length (trim i) > 0) ids"

definition create_event ::
  "event_store \<Rightarrow> string \<Rightarrow> create_event_body \<Rightarrow> string \<Rightarrow> int option \<Rightarrow> int
     \<Rightarrow> exn + (Event \<times> event_store)" where
  "create_event st newId body eventTypeId eventDate sortOrder =
     (if eventTypeId \<notin> set (map et_id (eventTypes st))
         \<or> b_dagId body \<notin> set (dagIds st)
         \<or> (b_sourceDagId body \<noteq> [] \<and> b_sourceDagId body \<notin> set (dagIds st))
      then Inl (PrismaError ''P2003'')
      else if \<not> set (valid_ids (b_participantNodeIds body)) \<subseteq> set (map dn_id (dagNodes st))
              \<or> \<not> set (valid_ids (b_tagIds body)) \<subseteq> set (tagIds st)
      then Inl (PrismaError ''P2025'')
      else if newId \<in> set (map ev_id (events st)) then Inl (PrismaError ''P2002'')
      else
        (let event = \<lparr>ev_id = newId, ev_title = trim (b_title body),
               ev_description = str_or_null (trim (b_description body)),
               ev_date = eventDate, ev_seriesDay = b_seriesDay body, ev_sortOrder = sortOrder,
               ev_eventTypeId = eventTypeId, ev_dagId = b_dagId body,
               ev_sourceDagId = str_or_null (b_sourceDagId body),
               ev_sourceNodeId = str_or_null (b_sourceNodeId body),
               ev_targetNodeId = str_or_null (b_targetNodeId body),
               ev_participantNodeIds = valid_ids (b_participantNodeIds body),
               ev_tagIds = valid_ids (b_tagIds body),
               ev_createdEdgeId = None\<rparr>
         in Inr (event, st\<lparr>events := events st @ [event]\<rparr>)))"

text \<open>The derived edge: created only when requested, with both endpoints given, and when
  no edge of the graph joins that source to that target yet.  Both variants of the route
  end with this block.\<close>

definition derive_edge ::
  "event_store \<Rightarrow> string \<Rightarrow> create_event_body \<Rightarrow> Event \<Rightarrow> exn + (DAGEdge option \<times> event_store)" where
  "derive_edge st newId body event =
     (if b_createEdge body \<and> b_sourceNodeId body \<noteq> [] \<and> b_targetNodeId body \<noteq> [] then
        (case find (\<lambda>e. de_dagId e = b_dagId body \<and> de_sourceId e = b_sourceNodeId body
                         \<and> de_targetId e = b_targetNodeId body) (dagEdges st) of
           Some existingEdge \<Rightarrow> Inr (None, st)
         | None \<Rightarrow>
             if newId \<in> set (map de_id (dagEdges st)) then Inl (PrismaError ''P2002'')
             else
               (let createdEdge = \<lparr>de_id = newId, de_dagId = b_dagId body,
                      de_sourceId = b_sourceNodeId body, de_targetId = b_targetNodeId body,
                      de_relationshipTypeId = None, de_label = Some (trim (b_title body)),
                      de_sourceHandle = None, de_targetHandle = None,
                      de_createdFromEventId = Some (ev_id event)\<rparr>
                in Inr (Some createdEdge,
                      st\<lparr>dagEdges := dagEdges st @ [createdEdge],
                         events := map (\<lambda>e. if ev_id e = ev_id event
                                              then e\<lparr>ev_createdEdgeId := Some (de_id createdEdge)\<rparr>
                                              else e) (events st)\<rparr>)))
      else Inr (None, st))"

text \<open>The create route.  Nothing is rolled back when a later step throws: the store
  keeps what the earlier steps wrote.\<close>

definition POST_events ::
  "event_store \<Rightarrow> fresh_ids \<Rightarrow> create_event_body
     \<Rightarrow> (failure + Event \<times> DAGEdge option) \<times> event_store" where
  "POST_events st ids body =
     (case event_checks st body of
        Some f \<Rightarrow> (Inl f, st)
      | None \<Rightarrow>
         (case resolve_eventType st (new_eventTypeId ids) body of
            Inl e \<Rightarrow> (Inl (500, ''Failed to create event''), st)
          | Inr (eventTypeId, st1) \<Rightarrow>
             if b_date body = DateInvalid then (Inl (400, ''Invalid date format''), st1)
             else
               (let eventDate = (case b_date body of DateAt t \<Rightarrow> Some t | _ \<Rightarrow> None);
                    sortOrder = newSortOrder st1 (b_dagId body) eventDate (b_seriesDay body)
                in case create_event st1 (new_eventId ids) body eventTypeId eventDate sortOrder of
                     Inl e \<Rightarrow> (Inl (500, ''Failed to create event''), st1)
                   | Inr (event, st2) \<Rightarrow>
                      (case derive_edge st2 (new_edgeId ids) body event of
                         Inl e \<Rightarrow> (Inl (500, ''Failed to create event''), st2)
                       | Inr (createdEdge, st3) \<Rightarrow> (Inr (event, createdEdge), st3)))))"

text \<open>The earlier variant of the create route: the date is required, and the request has
  no series day, tags or source graph (those fields of the body are not read).\<close>

definition event_checks_v1 :: "event_store \<Rightarrow> create_event_body \<Rightarrow> failure option" where
  "event_checks_v1 st body =
     (if b_title body = [] \<or> trim (b_title body) = [] then Some (400, ''Event title is required'')
      else if b_date body = DateAbsent then Some (400, ''Event date is required'')
      else if b_eventTypeId body = [] \<and> b_customTypeName body = []
      then Some (400, ''Event type is required'')
      else if b_dagId body = [] then Some (400, ''DAG ID is required'')
      else if b_sourceNodeId body = [] \<and> b_targetNodeId body = [] \<and> b_participantNodeIds body = []
      then Some (400, ''At least one node must be linked to the event'')
      else if b_sourceNodeId body \<noteq> []
              \<and> findFirst_node st (b_sourceNodeId body) (b_dagId body) = None
      then Some (400, ''Source node not found in this DAG'')
      else if b_targetNodeId body \<noteq> []
              \<and> findFirst_node st (b_targetNodeId body) (b_dagId body) = None
      then Some (400, ''Target node not found in this DAG'')
      else None)"

definition create_event_v1 ::
  "event_store \<Rightarrow> string \<Rightarrow> create_event_body \<Rightarrow> string \<Rightarrow> int \<Rightarrow> int
     \<Rightarrow> exn + (Event \<times> event_store)" where
  "create_event_v1 st newId body eventTypeId eventDate sortOrder =
     (if eventTypeId \<notin> set (map et_id (eventTypes st)) \<or> b_dagId body \<notin> set (dagIds st)
      then Inl (PrismaError ''P2003'')
      else if \<not> set (valid_ids (b_participantNodeIds body)) \<subseteq> set (map dn_id (dagNodes st))
      then Inl (PrismaError ''P2025'')
      else if newId \<in> set (map ev_id (events st)) then Inl (PrismaError ''P2002'')
      else
        (let event = \<lparr>ev_id = newId, ev_title = trim (b_title body),
               ev_description = str_or_null (trim (b_description body)),
               ev_date = Some eventDate, ev_seriesDay = None, ev_sortOrder = sortOrder,
               ev_eventTypeId = eventTypeId, ev_dagId = b_dagId body,
               ev_sourceDagId = None,
               ev_sourceNodeId = str_or_null (b_sourceNodeId body),
               ev_targetNodeId = str_or_null (b_targetNodeId body),
               ev_participantNodeIds = valid_ids (b_participantNodeIds body),
               ev_tagIds = [],
               ev_createdEdgeId = None\<rparr>
         in Inr (event, st\<lparr>events := events st @ [event]\<rparr>)))"

definition POST_events_v1 ::
  "event_store \<Rightarrow> fresh_ids \<Rightarrow> create_event_body
     \<Rightarrow> (failure + Event \<times> DAGEdge option) \<times> event_store" where
  "POST_events_v1 st ids body =
     (case event_checks_v1 st body of
        Some f \<Rightarrow> (Inl f, st)
      | None \<Rightarrow>
         (case resolve_eventType st (new_eventTypeId ids) body of
            Inl e \<Rightarrow> (Inl (500, ''Failed to create event''), st)
          | Inr (eventTypeId, st1) \<Rightarrow>
             (case b_date body of
                DateAt t \<Rightarrow>
                  (let sortOrder = newSortOrder st1 (b_dagId body) (Some t) None
                   in case create_event_v1 st1 (new_eventId ids) body eventTypeId t sortOrder of
                        Inl e \<Rightarrow> (Inl (500, ''Failed to create event''), st1)
                      | Inr (event, st2) \<Rightarrow>
                         (case derive_edge st2 (new_edgeId ids) body event of
                            Inl e \<Rightarrow> (Inl (500, ''Failed to create event''), st2)
                          | Inr (createdEdge, st3) \<Rightarrow> (Inr (event, createdEdge), st3)))
              | _ \<Rightarrow> (Inl (400, ''Invalid date format''), st1))))"

text \<open>The reorder route.  \<open>event.update\<close> on an id rewrites the sort order of the row with
  that id and throws when there is none.\<close>

definition update_sortOrder :: "event_store \<Rightarrow> string \<Rightarrow> int \<Rightarrow> exn + event_store" where
  "update_sortOrder st eventId index =
     (if eventId \<notin> set (map ev_id (events st)) then Inl (PrismaError ''P2025'')
      else Inr (st\<lparr>events := map (\<lambda>e. if ev_id e = eventId then e\<lparr>ev_sortOrder := index\<rparr> else e)
                                  (events st)\<rparr>))"

fun update_all :: "event_store \<Rightarrow> string list \<Rightarrow> nat \<Rightarrow> exn + event_store" where
  "update_all st [] index = Inr st"
| "update_all st (eventId # rest) index =
     (case update_sortOrder st eventId (int index) of
        Inl e \<Rightarrow> Inl e
      | Inr st' \<Rightarrow> update_all st' rest (index + 1))"

definition POST_reorder ::
  "event_store \<Rightarrow> string \<Rightarrow> date_field \<Rightarrow> string list option \<Rightarrow> (failure + unit) \<times> event_store" where
  "POST_reorder st dagId date eventIds =
     (case eventIds of
        None \<Rightarrow> (Inl (400, ''dagId, date, and eventIds array are required''), st)
      | Some ids \<Rightarrow>
         (case date of
            DateAbsent \<Rightarrow> (Inl (400, ''dagId, date, and eventIds array are required''), st)
          | DateInvalid \<Rightarrow>
              if dagId = [] then (Inl (400, ''dagId, date, and eventIds array are required''), st)
              else (Inl (400, ''Invalid date format''), st)
          | DateAt t \<Rightarrow>
              if dagId = [] then (Inl (400, ''dagId, date, and eventIds array are required''), st)
              else
                (let found = filter (\<lambda>e. ev_id e \<in> set ids \<and> ev_dagId e = dagId \<and> on_day t e) (events st)
                 in if length found \<noteq> length ids
                    then (Inl (400, ''Some events not found or not on the specified date''), st)
                    else
                      (case update_all st ids 0 of
                         Inl e \<Rightarrow> (Inl (500, ''Failed to reorder events''), st)
                       | Inr st' \<Rightarrow> (Inr (), st')))))"

subsection \<open>Specification side\<close>

text \<open>The events of a graph on the day of an instant, and those of a series day.\<close>

definition events_on_day :: "event_store \<Rightarrow> string \<Rightarrow> int \<Rightarrow> Event list" where
  "events_on_day st dagId t = filter (\<lambda>e. ev_dagId e = dagId \<and> on_day t e) (events st)"

definition events_on_seriesDay :: "event_store \<Rightarrow> string \<Rightarrow> int \<Rightarrow> Event list" where
  "events_on_seriesDay st dagId d = filter (\<lambda>e. ev_dagId e = dagId \<and> ev_seriesDay e = Some d) (events st)"

text \<open>One more than the largest sort order among the given events, 0 when there are none.\<close>

definition next_sortOrder :: "Event list \<Rightarrow> int" where
  "next_sortOrder evs = (if evs = [] then 0 else Max (ev_sortOrder ` set evs) + 1)"

text \<open>The edges of a graph from one node to another.\<close>

definition edges_between :: "event_store \<Rightarrow> string \<Rightarrow> string \<Rightarrow> string \<Rightarrow> DAGEdge list" where
  "edges_between st dagId s t =
     filter (\<lambda>e. de_dagId e = dagId \<and> de_sourceId e = s \<and> de_targetId e = t) (dagEdges st)"

definition node_in_dag :: "event_store \<Rightarrow> string \<Rightarrow> string \<Rightarrow> bool" where
  "node_in_dag st i dagId \<longleftrightarrow> list_ex (\<lambda>n. dn_id n = i \<and> dn_dagId n = dagId) (dagNodes st)"

text \<open>The request supplies the fields that the route checks before it looks at the
  nodes: a non-blank title, a date or a series day or a source graph, an event type or a
  custom type name, and the graph id.\<close>

definition required_fields_given :: "create_event_body \<Rightarrow> bool" where
  "required_fields_given body \<longleftrightarrow>
     trim (b_title body) \<noteq> []
     \<and> (b_date body \<noteq> DateAbsent
          \<or> (case b_seriesDay body of None \<Rightarrow> False | Some d \<Rightarrow> d \<noteq> 0)
          \<or> b_sourceDagId body \<noteq> [])
     \<and> (b_eventTypeId body \<noteq> [] \<or> b_customTypeName body \<noteq> [])
     \<and> b_dagId body \<noteq> []"

subsection \<open>Sample data\<close>

definition sample_event :: "string \<Rightarrow> int \<Rightarrow> int \<Rightarrow> Event" where
  "sample_event i t k = \<lparr>ev_id = i, ev_title = ''Meeting'', ev_description = None, ev_date = Some t,
     ev_seriesDay = None, ev_sortOrder = k, ev_eventTypeId = ''et1'', ev_dagId = ''g1'',
     ev_sourceDagId = None, ev_sourceNodeId = Some ''n1'', ev_targetNodeId = None,
     ev_participantNodeIds = [], ev_tagIds = [], ev_createdEdgeId = None\<rparr>"

text \<open>The sample graph with a second graph \<open>g2\<close> holding one node, one event type, and
  three events on the day that starts at instant 0.\<close>

definition sample_events :: event_store where
  "sample_events = \<lparr>dagIds = [''g1'', ''g2''], roles = [sample_role],
     entities = [sample_entity ''e0'', sample_entity ''e1'', sample_entity ''e2''],
     relationshipTypeIds = [],
     dagNodes = [sample_node ''r'' ''e0'' ''root'' 0 0, sample_node ''n1'' ''e1'' ''custom'' 100 50,
                 sample_node ''n2'' ''e2'' ''custom'' 400 200,
                 (sample_node ''m1'' ''e2'' ''custom'' 0 0)\<lparr>dn_dagId := ''g2''\<rparr>],
     dagEdges = [],
     events = [sample_event ''v1'' 1000 0, sample_event ''v2'' 2000 1, sample_event ''v3'' 3000 2],
     eventTypes = [\<lparr>et_id = ''et1'', et_name = ''Meeting'', et_icon = ''Users'', et_color = ''#000000''\<rparr>],
     tagIds = []\<rparr>"

definition sample_body :: "string \<Rightarrow> string \<Rightarrow> create_event_body" where
  "sample_body s t = \<lparr>b_title = ''Call'', b_description = [], b_date = DateAt 5000,
     b_seriesDay = None, b_tagIds = [], b_sourceDagId = [], b_customTypeName = [],
     b_sourceNodeId = s, b_targetNodeId = t, b_participantNodeIds = [], b_createEdge = True,
     b_dagId = ''g1'', b_eventTypeId = ''et1''\<rparr>"

definition sample_ids :: "string \<Rightarrow> fresh_ids" where
  "sample_ids k = \<lparr>new_eventTypeId = ''t'' @ k, new_eventId = ''v'' @ k, new_edgeId = ''x'' @ k\<rparr>"

text \<open>The net effect on one row of the updates for the ids of a list, numbered from \<open>k\<close>.\<close>

fun reorder_row :: "string list \<Rightarrow> nat \<Rightarrow> Event \<Rightarrow> Event" where
  "reorder_row [] k e = e"
| "reorder_row (i # rest) k e =
     reorder_row rest (k + 1) (if ev_id e = i then e\<lparr>ev_sortOrder := int k\<rparr> else e)"

text \<open>A request for a day without events, and one with a series day in place of the date.\<close>

definition body_on_empty_day :: create_event_body where
  "body_on_empty_day = (sample_body ''n1'' [])\<lparr>b_date := DateAt 259200000\<rparr>"

definition body_series_day :: create_event_body where
  "body_series_day = (sample_body ''n1'' [])\<lparr>b_date := DateAbsent, b_seriesDay := Some 4\<rparr>"

section \<open>Properties of the positioning heuristic\<close>

lemma fold_min_Min: "fold min vs (v::real) = Min (set (v # vs))"
proof (induction vs arbitrary: v)
  case Nil
  show ?case by simp
next
  case (Cons a vs)
  have "fold min (a # vs) v = Min (set (min a v # vs))"
    using Cons.IH [of "min a v"] by simp
  also have "\<dots> = Min (set (v # a # vs))"
    by (cases "vs = []") (simp_all add: Min_insert min.assoc min.commute)
  finally show ?case .
qed

lemma fold_max_Max: "fold max vs (v::real) = Max (set (v # vs))"
proof (induction vs arbitrary: v)
  case Nil
  show ?case by simp
next
  case (Cons a vs)
  have "fold max (a # vs) v = Max (set (max a v # vs))"
    using Cons.IH [of "max a v"] by simp
  also have "\<dots> = Max (set (v # a # vs))"
    by (cases "vs = []") (simp_all add: Max_insert max.assoc max.commute)
  finally show ?case .
qed

lemma Math_min_Min: "vs \<noteq> [] \<Longrightarrow> Math_min vs = Min (set vs)"
  by (cases vs) (simp_all add: fold_min_Min del: set_simps)

lemma Math_max_Max: "vs \<noteq> [] \<Longrightarrow> Math_max vs = Max (set vs)"
  by (cases vs) (simp_all add: fold_max_Max del: set_simps)

lemma smart_position_none:
  "calculateSmartPosition win [] allNodes None = \<lparr>pos_x = 0, pos_y = 0\<rparr>"
  by (simp add: calculateSmartPosition_def)

lemma smart_position_viewport:
  assumes "vp_zoom v \<noteq> 0"
  shows "is_viewport_center win v (calculateSmartPosition win [] allNodes (Some v))"
  using assms by (simp add: calculateSmartPosition_def is_viewport_center_def field_simps)

lemma smart_position_one:
  "calculateSmartPosition win [n] allNodes vp =
     \<lparr>pos_x = pos_x (node_position n) + 300, pos_y = pos_y (node_position n) + 150\<rparr>"
  by (simp add: calculateSmartPosition_def)

lemma smart_position_many:
  assumes "2 \<le> length ns"
  shows "calculateSmartPosition win ns allNodes vp =
     \<lparr>pos_x = pos_x (bbox_center (node_position ` set ns)) + 250,
      pos_y = pos_y (bbox_center (node_position ` set ns)) + 250\<rparr>"
proof -
  have ne: "map pos_x (map node_position ns) \<noteq> []" "map pos_y (map node_position ns) \<noteq> []"
    using assms by auto
  have sx: "set (map pos_x (map node_position ns)) = pos_x ` node_position ` set ns"
    by (simp add: image_image)
  have sy: "set (map pos_y (map node_position ns)) = pos_y ` node_position ` set ns"
    by (simp add: image_image)
  from assms have l: "length ns \<noteq> 0" "length ns \<noteq> 1" by auto
  show ?thesis
    unfolding calculateSmartPosition_def Let_def bbox_center_def
    using l by (simp only: Math_min_Min [OF ne(1)] Math_max_Max [OF ne(1)]
        Math_min_Min [OF ne(2)] Math_max_Max [OF ne(2)] sx sy if_False position.simps)
qed


lemma spiral_candidate_geometry:
  "pos_x (spiral_candidate d k) = pos_x d + 150 * (1 + real (k div 8)) * cos (real k * (pi / 4))"
  "pos_y (spiral_candidate d k) = pos_y d + 150 * (1 + real (k div 8)) * sin (real k * (pi / 4))"
proof -
  have e: "(real k * 45) * (pi / 180) = real k * (pi / 4)" by simp
  show
    "pos_x (spiral_candidate d k) = pos_x d + 150 * (1 + real (k div 8)) * cos (real k * (pi / 4))"
    "pos_y (spiral_candidate d k) = pos_y d + 150 * (1 + real (k div 8)) * sin (real k * (pi / 4))"
    unfolding spiral_candidate_def Let_def e by simp_all
qed

lemma spiral_candidate_radius:
  "sqrt ((pos_x (spiral_candidate d k) - pos_x d)\<^sup>2 + (pos_y (spiral_candidate d k) - pos_y d)\<^sup>2)
     = 150 * (1 + real (k div 8))"
proof -
  let ?r = "150 * (1 + real (k div 8))"
  let ?t = "real k * (pi / 4)"
  have "(pos_x (spiral_candidate d k) - pos_x d)\<^sup>2 + (pos_y (spiral_candidate d k) - pos_y d)\<^sup>2
          = (?r * cos ?t)\<^sup>2 + (?r * sin ?t)\<^sup>2"
    by (simp only: spiral_candidate_geometry add_diff_cancel_left')
  also have "\<dots> = ?r\<^sup>2 * ((cos ?t)\<^sup>2 + (sin ?t)\<^sup>2)"
    by (simp only: power_mult_distrib distrib_left)
  also have "\<dots> = ?r\<^sup>2"
    by (simp only: sin_cos_squared_add2 mult_1_right)
  finally have "sqrt ((pos_x (spiral_candidate d k) - pos_x d)\<^sup>2
                      + (pos_y (spiral_candidate d k) - pos_y d)\<^sup>2) = sqrt (?r\<^sup>2)"
    by simp
  moreover have "0 \<le> ?r" by simp
  ultimately show ?thesis by (simp only: real_sqrt_abs abs_of_nonneg)
qed

lemma spiral_loop_exit:
  assumes "a \<le> m" and "spiral_loop d ns m p a = (q, k)"
  shows "a \<le> k \<and> k \<le> m
       \<and> (k = a \<longrightarrow> q = p)
       \<and> (a < k \<longrightarrow> q = spiral_candidate d (k - 1) \<and> hasPositionConflict p ns minDistance_default)
       \<and> (\<forall>j. a < j \<and> j < k \<longrightarrow> hasPositionConflict (spiral_candidate d (j - 1)) ns minDistance_default)
       \<and> (k < m \<longrightarrow> \<not> hasPositionConflict q ns minDistance_default)"
  using assms
proof (induction d ns m p a rule: spiral_loop.induct)
  case (1 d ns m p a)
  show ?case
  proof (cases "hasPositionConflict p ns minDistance_default \<and> a < m")
    case False
    with "1.prems" have "q = p" "k = a"
      by (simp_all add: spiral_loop.simps [of d ns m p a])
    with False "1.prems"(1) show ?thesis by auto
  next
    case True
    then have rec: "spiral_loop d ns m (spiral_candidate d a) (a + 1) = (q, k)"
      using "1.prems"(2) by (simp add: spiral_loop.simps [of d ns m p a])
    from True have "a + 1 \<le> m" by simp
    from "1.IH" [OF True this rec]
    have ih: "a + 1 \<le> k" "k \<le> m"
      "k = a + 1 \<longrightarrow> q = spiral_candidate d a"
      "a + 1 < k \<longrightarrow> q = spiral_candidate d (k - 1)
          \<and> hasPositionConflict (spiral_candidate d a) ns minDistance_default"
      "\<forall>j. a + 1 < j \<and> j < k \<longrightarrow> hasPositionConflict (spiral_candidate d (j - 1)) ns minDistance_default"
      "k < m \<longrightarrow> \<not> hasPositionConflict q ns minDistance_default"
      by simp_all
    have q: "q = spiral_candidate d (k - 1)"
    proof (cases "k = a + 1")
      case True
      with ih(3) show ?thesis by simp
    next
      case False
      with ih(1,4) show ?thesis by simp
    qed
    have mid: "hasPositionConflict (spiral_candidate d (j - 1)) ns minDistance_default"
      if "a < j" "j < k" for j
    proof (cases "j = a + 1")
      case True
      with that ih(4) show ?thesis by simp
    next
      case False
      with that ih(5) show ?thesis by simp
    qed
    from ih(1,2,6) q mid True show ?thesis by auto
  qed
qed

lemma spiral_loop_from_start:
  assumes "spiral_loop d ns m d 0 = (q, k)"
  shows "k \<le> m \<and> q = loop_candidate d k
       \<and> (\<forall>j<k. hasPositionConflict (loop_candidate d j) ns minDistance_default)
       \<and> (k < m \<longrightarrow> \<not> hasPositionConflict (loop_candidate d k) ns minDistance_default)"
proof -
  from spiral_loop_exit [OF _ assms]
  have ex: "k \<le> m" "k = 0 \<longrightarrow> q = d"
    "0 < k \<longrightarrow> q = spiral_candidate d (k - 1) \<and> hasPositionConflict d ns minDistance_default"
    "\<forall>j. 0 < j \<and> j < k \<longrightarrow> hasPositionConflict (spiral_candidate d (j - 1)) ns minDistance_default"
    "k < m \<longrightarrow> \<not> hasPositionConflict q ns minDistance_default"
    by simp_all
  from ex(2,3) have q: "q = loop_candidate d k"
    by (cases "k = 0") (simp_all add: loop_candidate_def)
  have "hasPositionConflict (loop_candidate d j) ns minDistance_default" if "j < k" for j
  proof (cases "j = 0")
    case True
    with that ex(3) show ?thesis by (simp add: loop_candidate_def)
  next
    case False
    with that ex(4) show ?thesis by (simp add: loop_candidate_def)
  qed
  with ex(1,5) q show ?thesis by simp
qed

text \<open>
  C7.  The placement is a function of the related nodes, the viewport and the window size:
  one related node gives that node's position moved 300 to the right and 150 down; two or
  more give the centre of their bounding box moved by 250 on both axes; none gives the
  viewport centre when a viewport is passed (the point that the transform of a viewport
  with non-zero zoom sends to the middle of the window), and the origin otherwise.
\<close>

theorem calculateSmartPosition_cases:
  "(length ns = 1 \<longrightarrow>
      calculateSmartPosition win ns allNodes vp =
        \<lparr>pos_x = pos_x (node_position (hd ns)) + 300,
         pos_y = pos_y (node_position (hd ns)) + 150\<rparr>)
   \<and> (2 \<le> length ns \<longrightarrow>
      calculateSmartPosition win ns allNodes vp =
        \<lparr>pos_x = pos_x (bbox_center (node_position ` set ns)) + 250,
         pos_y = pos_y (bbox_center (node_position ` set ns)) + 250\<rparr>)
   \<and> (vp_zoom v \<noteq> 0 \<longrightarrow>
      is_viewport_center win v (calculateSmartPosition win [] allNodes (Some v)))
   \<and> calculateSmartPosition win [] allNodes None = \<lparr>pos_x = 0, pos_y = 0\<rparr>"
proof (intro conjI impI)
  assume "length ns = 1"
  then obtain n where "ns = [n]" by (cases ns) auto
  then show "calculateSmartPosition win ns allNodes vp =
        \<lparr>pos_x = pos_x (node_position (hd ns)) + 300,
         pos_y = pos_y (node_position (hd ns)) + 150\<rparr>"
    by (simp add: smart_position_one)
next
  assume "2 \<le> length ns"
  then show "calculateSmartPosition win ns allNodes vp =
        \<lparr>pos_x = pos_x (bbox_center (node_position ` set ns)) + 250,
         pos_y = pos_y (bbox_center (node_position ` set ns)) + 250\<rparr>"
    by (rule smart_position_many)
next
  assume "vp_zoom v \<noteq> 0"
  then show "is_viewport_center win v (calculateSmartPosition win [] allNodes (Some v))"
    by (rule smart_position_viewport)
next
  show "calculateSmartPosition win [] allNodes None = \<lparr>pos_x = 0, pos_y = 0\<rparr>"
    by (rule smart_position_none)
qed

theorem calculateSmartPosition_cases_witness:
  "calculateSmartPosition \<lparr>innerWidth = 800, innerHeight = 600\<rparr> [node_at ''a'' 10 20] [] None
     = \<lparr>pos_x = 310, pos_y = 170\<rparr>
   \<and> calculateSmartPosition \<lparr>innerWidth = 800, innerHeight = 600\<rparr>
        [node_at ''a'' 0 0, node_at ''b'' 100 40, node_at ''c'' 20 200] [] None
     = \<lparr>pos_x = 300, pos_y = 350\<rparr>
   \<and> is_viewport_center \<lparr>innerWidth = 800, innerHeight = 600\<rparr> \<lparr>vp_x = 100, vp_y = 50, vp_zoom = 2\<rparr>
        (calculateSmartPosition \<lparr>innerWidth = 800, innerHeight = 600\<rparr> [] []
           (Some \<lparr>vp_x = 100, vp_y = 50, vp_zoom = 2\<rparr>))"
  using calculateSmartPosition_cases [of "[node_at ''a'' 10 20]" "\<lparr>innerWidth = 800, innerHeight = 600\<rparr>"
          "[]" None "\<lparr>vp_x = 100, vp_y = 50, vp_zoom = 2\<rparr>"]
        calculateSmartPosition_cases [of "[node_at ''a'' 0 0, node_at ''b'' 100 40, node_at ''c'' 20 200]"
          "\<lparr>innerWidth = 800, innerHeight = 600\<rparr>" "[]" None "\<lparr>vp_x = 100, vp_y = 50, vp_zoom = 2\<rparr>"]
  by (simp add: node_at_def bbox_center_def)

text \<open>
  C8.  The search loop runs its body at most \<open>maxAttempts\<close> times (10 when the argument
  is omitted) and returns a position: the desired point if the body never ran, and
  otherwise the candidate of the last pass.  The candidate of pass \<open>j\<close> (counted from 0)
  lies at angle \<open>j * 45\<close> degrees, that is \<open>j * pi / 4\<close>, and at distance
  \<open>150 * (1 + j div 8)\<close> from the desired point.  Every
  candidate before the returned one is within 200 of some node; the returned one is
  free of conflict when the loop stopped early, and when every pass was used it is
  returned without being tested.
\<close>

theorem findNonConflictingPosition_spiral:
  "findNonConflictingPosition_iterations d ns m \<le> maxAttempts_of m
   \<and> maxAttempts_of None = 10 \<and> minDistance_default = 200
   \<and> findNonConflictingPosition d ns m
        = loop_candidate d (findNonConflictingPosition_iterations d ns m)
   \<and> (\<forall>j < findNonConflictingPosition_iterations d ns m.
         hasPositionConflict (loop_candidate d j) ns minDistance_default)
   \<and> (findNonConflictingPosition_iterations d ns m < maxAttempts_of m \<longrightarrow>
         \<not> hasPositionConflict (findNonConflictingPosition d ns m) ns minDistance_default)
   \<and> ((\<forall>j < maxAttempts_of m. hasPositionConflict (loop_candidate d j) ns minDistance_default) \<longrightarrow>
         findNonConflictingPosition d ns m = loop_candidate d (maxAttempts_of m))
   \<and> (\<forall>j. loop_candidate d (Suc j) =
          \<lparr>pos_x = pos_x d + 150 * (1 + real (j div 8)) * cos (real j * (pi / 4)),
           pos_y = pos_y d + 150 * (1 + real (j div 8)) * sin (real j * (pi / 4))\<rparr>
        \<and> sqrt ((pos_x (loop_candidate d (Suc j)) - pos_x d)\<^sup>2
                + (pos_y (loop_candidate d (Suc j)) - pos_y d)\<^sup>2) = 150 * (1 + real (j div 8)))"
proof -
  let ?M = "maxAttempts_of m"
  obtain q k where qk: "spiral_loop d ns ?M d 0 = (q, k)"
    by (cases "spiral_loop d ns ?M d 0")
  then have r: "findNonConflictingPosition d ns m = q"
    and i: "findNonConflictingPosition_iterations d ns m = k"
    by (simp_all add: findNonConflictingPosition_def findNonConflictingPosition_iterations_def)
  from spiral_loop_from_start [OF qk]
  have f: "k \<le> ?M" "q = loop_candidate d k"
    "\<forall>j<k. hasPositionConflict (loop_candidate d j) ns minDistance_default"
    "k < ?M \<longrightarrow> \<not> hasPositionConflict (loop_candidate d k) ns minDistance_default"
    by simp_all
  have all: "q = loop_candidate d ?M"
    if "\<forall>j < ?M. hasPositionConflict (loop_candidate d j) ns minDistance_default"
  proof -
    from that f(4) have "\<not> k < ?M" by blast
    with f(1) have "k = ?M" by simp
    with f(2) show ?thesis by simp
  qed
  have geo: "loop_candidate d (Suc j) =
          \<lparr>pos_x = pos_x d + 150 * (1 + real (j div 8)) * cos (real j * (pi / 4)),
           pos_y = pos_y d + 150 * (1 + real (j div 8)) * sin (real j * (pi / 4))\<rparr>
        \<and> sqrt ((pos_x (loop_candidate d (Suc j)) - pos_x d)\<^sup>2
                + (pos_y (loop_candidate d (Suc j)) - pos_y d)\<^sup>2) = 150 * (1 + real (j div 8))" for j
  proof -
    have c: "loop_candidate d (Suc j) = spiral_candidate d j"
      by (simp add: loop_candidate_def)
    have "spiral_candidate d j =
          \<lparr>pos_x = pos_x d + 150 * (1 + real (j div 8)) * cos (real j * (pi / 4)),
           pos_y = pos_y d + 150 * (1 + real (j div 8)) * sin (real j * (pi / 4))\<rparr>"
      by (rule position.equality) (simp_all add: spiral_candidate_geometry)
    with c spiral_candidate_radius [of d j] show ?thesis by simp
  qed
  have dflt: "maxAttempts_of None = 10" "minDistance_default = 200"
    by (simp_all add: maxAttempts_of_def maxAttempts_default_def minDistance_default_def)
  from f all geo dflt show ?thesis
    unfolding r i by blast
qed

theorem findNonConflictingPosition_spiral_witness:
  "findNonConflictingPosition \<lparr>pos_x = 0, pos_y = 0\<rparr>
      [node_at ''a'' 0 0, node_at ''b'' 150 0] (Some 1) = \<lparr>pos_x = 150, pos_y = 0\<rparr>
   \<and> hasPositionConflict \<lparr>pos_x = 150, pos_y = 0\<rparr>
        [node_at ''a'' 0 0, node_at ''b'' 150 0] minDistance_default"
proof -
  let ?d = "\<lparr>pos_x = 0, pos_y = 0\<rparr>"
  let ?ns = "[node_at ''a'' 0 0, node_at ''b'' 150 0]"
  have c0: "\<forall>j < maxAttempts_of (Some 1). hasPositionConflict (loop_candidate ?d j) ?ns minDistance_default"
    by (simp add: maxAttempts_of_def loop_candidate_def hasPositionConflict_def node_at_def
        minDistance_default_def)
  have c1: "loop_candidate ?d (maxAttempts_of (Some 1)) = \<lparr>pos_x = 150, pos_y = 0\<rparr>"
    by (simp add: maxAttempts_of_def loop_candidate_def spiral_candidate_def)
  have c2: "hasPositionConflict \<lparr>pos_x = 150, pos_y = 0\<rparr> ?ns minDistance_default"
    by (simp add: hasPositionConflict_def node_at_def minDistance_default_def)
  have "(\<forall>j < maxAttempts_of (Some 1). hasPositionConflict (loop_candidate ?d j) ?ns minDistance_default)
          \<longrightarrow> findNonConflictingPosition ?d ?ns (Some 1) = loop_candidate ?d (maxAttempts_of (Some 1))"
    using findNonConflictingPosition_spiral [of ?d ?ns "Some 1"] by blast
  with c0 have "findNonConflictingPosition ?d ?ns (Some 1) = loop_candidate ?d (maxAttempts_of (Some 1))"
    by blast
  with c1 c2 show ?thesis by (simp only: simp_thms)
qed

section \<open>Properties of the save route\<close>

subsection \<open>What each step leaves alone\<close>

lemma deleteMany_nodes_fields [simp]:
  "dagNodes (deleteMany_nodes g sent tx) = filter (\<lambda>n. \<not> node_delete_filter g sent n) (dagNodes tx)"
  "dagEdges (deleteMany_nodes g sent tx) =
     filter (\<lambda>e. de_sourceId e \<notin> set (map dn_id (filter (node_delete_filter g sent) (dagNodes tx)))
               \<and> de_targetId e \<notin> set (map dn_id (filter (node_delete_filter g sent) (dagNodes tx))))
       (dagEdges tx)"
  "entities (deleteMany_nodes g sent tx) = entities tx"
  "roles (deleteMany_nodes g sent tx) = roles tx"
  "dagIds (deleteMany_nodes g sent tx) = dagIds tx"
  "relationshipTypeIds (deleteMany_nodes g sent tx) = relationshipTypeIds tx"
  by (simp_all add: deleteMany_nodes_def Let_def)

lemma deleteMany_edges_fields [simp]:
  "dagNodes (deleteMany_edges g sent tx) = dagNodes tx"
  "dagEdges (deleteMany_edges g sent tx) =
     filter (\<lambda>e. \<not> (de_dagId e = g \<and> de_id e \<notin> set sent)) (dagEdges tx)"
  "dagIds (deleteMany_edges g sent tx) = dagIds tx"
  by (simp_all add: deleteMany_edges_def)

lemma upsert_node_fields [simp]:
  "dagEdges (upsert_node i g ent a b c t tx) = dagEdges tx"
  "entities (upsert_node i g ent a b c t tx) = entities tx"
  "roles (upsert_node i g ent a b c t tx) = roles tx"
  "dagIds (upsert_node i g ent a b c t tx) = dagIds tx"
  "relationshipTypeIds (upsert_node i g ent a b c t tx) = relationshipTypeIds tx"
  by (simp_all add: upsert_node_def)

lemma save_node_result:
  assumes "save_node g node tx = Inr tx'"
  obtains ent entity a b c where
    "tx' = upsert_node (cn_id node) g ent a b c (save_nodeType tx node entity) tx"
    "cn_type node = Some ''root'' \<longrightarrow> a = 0 \<and> b = 0"
proof -
  from assms obtain ent where e: "cn_entityId node = Some ent"
    by (auto simp: save_node_def split: option.splits)
  with assms obtain entity where f: "findUnique_entity tx ent = Some entity"
    by (auto simp: save_node_def split: option.splits)
  show thesis
  proof (cases "cn_type node = Some ''root''")
    case True
    with assms e f
    have "tx' = upsert_node (cn_id node) g ent 0 0 (or_null (cn_category node))
                  (save_nodeType tx node entity) tx"
      by (simp add: save_node_def)
    with True that show thesis by blast
  next
    case False
    with assms e f obtain p where p: "cn_position node = Some p"
      by (cases "cn_position node") (simp_all add: save_node_def)
    with False assms e f
    have "tx' = upsert_node (cn_id node) g ent (pos_x p) (pos_y p) (or_null (cn_category node))
                  (save_nodeType tx node entity) tx"
      by (simp add: save_node_def)
    with False that show thesis by blast
  qed
qed

lemma save_nodeType_root:
  "save_nodeType tx node entity = ''root'' \<longleftrightarrow> cn_type node = Some ''root''"
  by (simp add: save_nodeType_def Let_def)

lemma save_node_edges:
  "save_node g node tx = Inr tx' \<Longrightarrow> dagEdges tx' = dagEdges tx \<and> dagIds tx' = dagIds tx"
  by (erule save_node_result) simp

lemma save_nodes_edges:
  "save_nodes g nodes tx = Inr tx' \<Longrightarrow> dagEdges tx' = dagEdges tx \<and> dagIds tx' = dagIds tx"
proof (induction nodes arbitrary: tx)
  case Nil
  then show ?case by simp
next
  case (Cons node rest)
  from Cons.prems obtain tx1 where s: "save_node g node tx = Inr tx1"
    and r: "save_nodes g rest tx1 = Inr tx'"
    by (auto split: sum.splits)
  from save_node_edges [OF s] Cons.IH [OF r] show ?case by simp
qed

lemma upsert_edge_nodes:
  "upsert_edge g edge r l tx = Inr tx' \<Longrightarrow> dagNodes tx' = dagNodes tx \<and> dagIds tx' = dagIds tx"
  by (auto simp: upsert_edge_def split: if_splits)

lemma save_edge_nodes:
  "save_edge g edge tx = Inr tx' \<Longrightarrow> dagNodes tx' = dagNodes tx \<and> dagIds tx' = dagIds tx"
  unfolding save_edge_def Let_def
  by (auto dest: upsert_edge_nodes split: if_splits)

lemma save_edges_nodes:
  "save_edges g edges tx = Inr tx' \<Longrightarrow> dagNodes tx' = dagNodes tx \<and> dagIds tx' = dagIds tx"
proof (induction edges arbitrary: tx)
  case Nil
  then show ?case by simp
next
  case (Cons edge rest)
  from Cons.prems obtain tx1 where s: "save_edge g edge tx = Inr tx1"
    and r: "save_edges g rest tx1 = Inr tx'"
    by (auto split: sum.splits)
  from save_edge_nodes [OF s] Cons.IH [OF r] show ?case by simp
qed

text \<open>The stages of a transaction that commits.\<close>

lemma save_transaction_stages:
  assumes "save_transaction g nodes edges tx = Inr tx'"
  obtains tx1 tx2 tx3 where
    "tx1 = (if nodes \<noteq> [] then deleteMany_nodes g (map cn_id nodes) tx else tx)"
    "save_nodes g nodes tx1 = Inr tx2"
    "tx3 = (if edges \<noteq> [] then deleteMany_edges g (map ce_id edges) tx2 else tx2)"
    "save_edges g edges tx3 = Inr tx'"
  using assms unfolding save_transaction_def Let_def
  by (auto split: sum.splits)

lemma POST_save_cases:
  assumes "POST_save st g nodes edges = (r, st')"
  obtains (unchanged) "st' = st"
  | (committed) "r = Inr ()" "save_transaction g nodes edges st = Inr st'"
  using assms unfolding POST_save_def
  by (auto split: if_splits option.splits sum.splits)

subsection \<open>Root nodes across a save\<close>

lemma root_ids_keys: "root_ids st = map fst (root_keys st)"
  by (simp add: root_ids_def root_keys_def comp_def)

lemma root_filter_map:
  assumes "\<forall>n\<in>set ns. is_root (f n) = is_root n \<and> dn_id (f n) = dn_id n \<and> dn_dagId (f n) = dn_dagId n"
  shows "map (\<lambda>n. (dn_id n, dn_dagId n)) (filter is_root (map f ns))
           = map (\<lambda>n. (dn_id n, dn_dagId n)) (filter is_root ns)"
  using assms by (induction ns) simp_all

lemma root_id_unique:
  assumes "distinct (map dn_id ns)" "n \<in> set ns"
  shows "dn_id n \<in> set (map dn_id (filter is_root ns)) \<longleftrightarrow> is_root n"
proof
  assume "dn_id n \<in> set (map dn_id (filter is_root ns))"
  then obtain m where m: "m \<in> set ns" "is_root m" "dn_id m = dn_id n" by auto
  from assms m(1,3) have "m = n" by (meson distinct_map inj_onD)
  with m(2) show "is_root n" by simp
next
  assume "is_root n"
  with assms(2) show "dn_id n \<in> set (map dn_id (filter is_root ns))" by auto
qed

lemma upsert_node_roots:
  assumes d: "distinct (map dn_id (dagNodes tx))"
    and h: "(t = ''root'') = (i \<in> set (root_ids tx))"
    and o: "t = ''root'' \<longrightarrow> a = 0 \<and> b = 0"
    and ro: "roots_at_origin tx"
  shows "root_keys (upsert_node i g ent a b c t tx) = root_keys tx"
    and "distinct (map dn_id (dagNodes (upsert_node i g ent a b c t tx)))"
    and "roots_at_origin (upsert_node i g ent a b c t tx)"
proof -
  let ?ns = "dagNodes tx"
  let ?f = "\<lambda>n. if dn_id n = i
              then n\<lparr>dn_x := a, dn_y := b, dn_category := c, dn_type := Some t\<rparr> else n"
  show "root_keys (upsert_node i g ent a b c t tx) = root_keys tx"
  proof (cases "i \<in> set (map dn_id ?ns)")
    case True
    have "is_root (?f n) = is_root n \<and> dn_id (?f n) = dn_id n \<and> dn_dagId (?f n) = dn_dagId n"
      if n: "n \<in> set ?ns" for n
    proof (cases "dn_id n = i")
      case False
      then show ?thesis by simp
    next
      case True
      have "is_root (?f n) \<longleftrightarrow> t = ''root''" using True by (simp add: is_root_def)
      also have "\<dots> \<longleftrightarrow> dn_id n \<in> set (map dn_id (filter is_root ?ns))"
        using h True by (simp add: root_ids_def)
      also have "\<dots> \<longleftrightarrow> is_root n" by (rule root_id_unique [OF d n])
      finally show ?thesis using True by simp
    qed
    then have "map (\<lambda>n. (dn_id n, dn_dagId n)) (filter is_root (map ?f ?ns))
               = map (\<lambda>n. (dn_id n, dn_dagId n)) (filter is_root ?ns)"
      by (intro root_filter_map) blast
    with True show ?thesis by (simp add: upsert_node_def root_keys_def)
  next
    case False
    then have "i \<notin> set (root_ids tx)" by (auto simp: root_ids_def)
    with h have "t \<noteq> ''root''" by simp
    with False show ?thesis by (simp add: upsert_node_def root_keys_def is_root_def)
  qed
  show "distinct (map dn_id (dagNodes (upsert_node i g ent a b c t tx)))"
  proof (cases "i \<in> set (map dn_id ?ns)")
    case True
    have "map dn_id (map ?f ?ns) = map dn_id ?ns" by (induction ?ns) simp_all
    with True d show ?thesis by (simp add: upsert_node_def del: map_map)
  next
    case False
    with d show ?thesis by (simp add: upsert_node_def)
  qed
  show "roots_at_origin (upsert_node i g ent a b c t tx)"
  proof (cases "i \<in> set (map dn_id ?ns)")
    case True
    have f: "is_root (?f n) \<longrightarrow> dn_x (?f n) = 0 \<and> dn_y (?f n) = 0" if "n \<in> set ?ns" for n
      using that ro o by (auto simp: roots_at_origin_def list_all_iff is_root_def)
    have "\<forall>m\<in>set (map ?f ?ns). is_root m \<longrightarrow> dn_x m = 0 \<and> dn_y m = 0"
    proof
      fix m assume "m \<in> set (map ?f ?ns)"
      then obtain n where "n \<in> set ?ns" "m = ?f n" by auto
      with f [of n] show "is_root m \<longrightarrow> dn_x m = 0 \<and> dn_y m = 0" by simp
    qed
    moreover have "dagNodes (upsert_node i g ent a b c t tx) = map ?f ?ns"
      using True by (simp add: upsert_node_def)
    ultimately show ?thesis
      by (simp only: roots_at_origin_def list_all_iff)
  next
    case False
    with ro o show ?thesis
      by (auto simp: upsert_node_def roots_at_origin_def list_all_iff is_root_def)
  qed
qed

lemma node_delete_filter_not_root: "node_delete_filter g sent n \<Longrightarrow> \<not> is_root n"
  by (auto simp: node_delete_filter_def is_root_def split: option.splits)

lemma deleteMany_nodes_roots:
  shows "root_keys (deleteMany_nodes g sent tx) = root_keys tx"
    and "distinct (map dn_id (dagNodes tx)) \<Longrightarrow> distinct (map dn_id (dagNodes (deleteMany_nodes g sent tx)))"
    and "roots_at_origin tx \<Longrightarrow> roots_at_origin (deleteMany_nodes g sent tx)"
proof -
  have "filter is_root (filter (\<lambda>n. \<not> node_delete_filter g sent n) (dagNodes tx))
          = filter is_root (dagNodes tx)"
    by (auto intro: filter_cong dest: node_delete_filter_not_root)
  then show "root_keys (deleteMany_nodes g sent tx) = root_keys tx"
    by (simp add: root_keys_def)
  show "distinct (map dn_id (dagNodes tx)) \<Longrightarrow> distinct (map dn_id (dagNodes (deleteMany_nodes g sent tx)))"
    by (simp add: distinct_map_filter)
  show "roots_at_origin tx \<Longrightarrow> roots_at_origin (deleteMany_nodes g sent tx)"
    by (simp add: roots_at_origin_def list_all_iff)
qed

lemma save_node_roots:
  assumes "save_node g node tx = Inr tx'"
    and d: "distinct (map dn_id (dagNodes tx))"
    and h: "(cn_type node = Some ''root'') = (cn_id node \<in> set (root_ids tx))"
    and ro: "roots_at_origin tx"
  shows "root_keys tx' = root_keys tx \<and> distinct (map dn_id (dagNodes tx')) \<and> roots_at_origin tx'"
proof -
  from assms(1) obtain ent entity a b c where
    tx': "tx' = upsert_node (cn_id node) g ent a b c (save_nodeType tx node entity) tx"
    and z: "cn_type node = Some ''root'' \<longrightarrow> a = 0 \<and> b = 0"
    by (rule save_node_result)
  let ?t = "save_nodeType tx node entity"
  have h': "(?t = ''root'') = (cn_id node \<in> set (root_ids tx))"
    using h by (simp add: save_nodeType_root)
  have o: "?t = ''root'' \<longrightarrow> a = 0 \<and> b = 0"
    using z by (simp add: save_nodeType_root)
  from upsert_node_roots [OF d h' o ro] show ?thesis unfolding tx' by blast
qed

lemma save_nodes_roots:
  assumes "save_nodes g nodes tx = Inr tx'"
    and "distinct (map dn_id (dagNodes tx))"
    and "root_hints_match (root_ids tx) nodes"
    and "roots_at_origin tx"
  shows "root_keys tx' = root_keys tx \<and> distinct (map dn_id (dagNodes tx')) \<and> roots_at_origin tx'"
  using assms
proof (induction nodes arbitrary: tx)
  case Nil
  then show ?case by simp
next
  case (Cons node rest)
  from Cons.prems(1) obtain tx1 where s: "save_node g node tx = Inr tx1"
    and r: "save_nodes g rest tx1 = Inr tx'"
    by (auto split: sum.splits)
  from Cons.prems(3) have h: "(cn_type node = Some ''root'') = (cn_id node \<in> set (root_ids tx))"
    and hr: "root_hints_match (root_ids tx) rest"
    by (simp_all add: root_hints_match_def)
  from save_node_roots [OF s Cons.prems(2) h Cons.prems(4)]
  have one: "root_keys tx1 = root_keys tx" "distinct (map dn_id (dagNodes tx1))" "roots_at_origin tx1"
    by simp_all
  from one(1) hr have "root_hints_match (root_ids tx1) rest"
    by (simp add: root_ids_keys)
  from Cons.IH [OF r one(2) this one(3)] one(1) show ?case by simp
qed

lemma upsert_edge_distinct:
  assumes "upsert_edge g edge r l tx = Inr tx'" "distinct (map de_id (dagEdges tx))"
  shows "distinct (map de_id (dagEdges tx'))"
proof (cases "ce_id edge \<in> set (map de_id (dagEdges tx))")
  case True
  let ?f = "\<lambda>e. if de_id e = ce_id edge
      then e\<lparr>de_relationshipTypeId := r, de_label := l,
             de_sourceHandle := or_null (ce_sourceHandle edge),
             de_targetHandle := or_null (ce_targetHandle edge)\<rparr> else e"
  have "map de_id (map ?f (dagEdges tx)) = map de_id (dagEdges tx)"
    by (induction "dagEdges tx") simp_all
  with True assms show ?thesis
    by (auto simp: upsert_edge_def simp del: map_map split: if_splits)
next
  case False
  with assms show ?thesis
    by (auto simp: upsert_edge_def split: if_splits)
qed

lemma save_edges_distinct:
  assumes "save_edges g edges tx = Inr tx'" "distinct (map de_id (dagEdges tx))"
  shows "distinct (map de_id (dagEdges tx'))"
  using assms
proof (induction edges arbitrary: tx)
  case Nil
  then show ?case by simp
next
  case (Cons edge rest)
  from Cons.prems(1) obtain tx1 where s: "save_edge g edge tx = Inr tx1"
    and r: "save_edges g rest tx1 = Inr tx'"
    by (auto split: sum.splits)
  from s Cons.prems(2) have "distinct (map de_id (dagEdges tx1))"
    unfolding save_edge_def Let_def
    by (auto dest: upsert_edge_distinct split: if_splits)
  from Cons.IH [OF r this] show ?case .
qed

lemma save_transaction_roots:
  assumes t: "save_transaction g nodes edges tx = Inr tx'"
    and k: "keys_ok tx"
    and h: "root_hints_match (root_ids tx) nodes"
    and ro: "roots_at_origin tx"
  shows "root_keys tx' = root_keys tx \<and> keys_ok tx' \<and> roots_at_origin tx'"
proof -
  from t obtain tx1 tx2 tx3 where
    s1: "tx1 = (if nodes \<noteq> [] then deleteMany_nodes g (map cn_id nodes) tx else tx)"
    and s2: "save_nodes g nodes tx1 = Inr tx2"
    and s3: "tx3 = (if edges \<noteq> [] then deleteMany_edges g (map ce_id edges) tx2 else tx2)"
    and s4: "save_edges g edges tx3 = Inr tx'"
    by (rule save_transaction_stages)
  from k have dn: "distinct (map dn_id (dagNodes tx))" and de: "distinct (map de_id (dagEdges tx))"
    by (simp_all add: keys_ok_def)
  have a1: "root_keys tx1 = root_keys tx" "distinct (map dn_id (dagNodes tx1))" "roots_at_origin tx1"
    using s1 dn ro deleteMany_nodes_roots [where g = g and sent = "map cn_id nodes" and tx = tx]
    by (simp_all split: if_splits)
  have e1: "distinct (map de_id (dagEdges tx1))"
    using s1 de by (simp add: distinct_map_filter split: if_splits)
  from h a1(1) have "root_hints_match (root_ids tx1) nodes" by (simp add: root_ids_keys)
  from save_nodes_roots [OF s2 a1(2) this a1(3)]
  have a2: "root_keys tx2 = root_keys tx1" "distinct (map dn_id (dagNodes tx2))" "roots_at_origin tx2"
    by simp_all
  from save_nodes_edges [OF s2] e1 have e2: "distinct (map de_id (dagEdges tx2))" by simp
  have n3: "dagNodes tx3 = dagNodes tx2" using s3 by simp
  have e3: "distinct (map de_id (dagEdges tx3))"
    using s3 e2 by (simp add: distinct_map_filter)
  from save_edges_nodes [OF s4] n3 have n4: "dagNodes tx' = dagNodes tx2" by simp
  from save_edges_distinct [OF s4 e3] have e4: "distinct (map de_id (dagEdges tx'))" .
  from n4 a2 a1(1) e4 show ?thesis
    by (simp add: root_keys_def keys_ok_def roots_at_origin_def)
qed

lemma POST_save_roots:
  assumes "keys_ok st" "root_hints_match (root_ids st) nodes" "roots_at_origin st"
  shows "root_keys (snd (POST_save st g nodes edges)) = root_keys st
       \<and> keys_ok (snd (POST_save st g nodes edges))
       \<and> roots_at_origin (snd (POST_save st g nodes edges))"
proof -
  obtain r st' where p: "POST_save st g nodes edges = (r, st')"
    by (cases "POST_save st g nodes edges")
  then show ?thesis
  proof (cases rule: POST_save_cases)
    case unchanged
    with p assms show ?thesis by simp
  next
    case committed
    from save_transaction_roots [OF committed(2) assms] p show ?thesis by simp
  qed
qed

lemma save_calls_roots:
  assumes "keys_ok st" "roots_at_origin st"
    and "list_all (\<lambda>c. root_hints_match (root_ids st) (fst (snd c))) calls"
  shows "root_keys (save_calls st calls) = root_keys st
       \<and> keys_ok (save_calls st calls) \<and> roots_at_origin (save_calls st calls)"
  using assms
proof (induction calls arbitrary: st)
  case Nil
  then show ?case by simp
next
  case (Cons c calls)
  obtain g nodes edges where c: "c = (g, nodes, edges)" by (cases c)
  let ?st1 = "snd (POST_save st g nodes edges)"
  from Cons.prems(3) c have h: "root_hints_match (root_ids st) nodes"
    and hs: "list_all (\<lambda>c. root_hints_match (root_ids st) (fst (snd c))) calls"
    by simp_all
  from POST_save_roots [OF Cons.prems(1) h Cons.prems(2)]
  have one: "root_keys ?st1 = root_keys st" "keys_ok ?st1" "roots_at_origin ?st1"
    by simp_all
  from hs one(1) have "list_all (\<lambda>c. root_hints_match (root_ids ?st1) (fst (snd c))) calls"
    by (simp add: root_ids_keys)
  from Cons.IH [OF one(2,3) this] one(1) c show ?case by simp
qed

lemma roots_of_keys:
  "map dn_id (roots_of st g) = map fst (filter (\<lambda>k. snd k = g) (root_keys st))"
proof -
  have "roots_of st g = filter (\<lambda>n. dn_dagId n = g) (filter is_root (dagNodes st))"
    by (auto simp: roots_of_def intro: filter_cong)
  then show ?thesis
    by (simp add: root_keys_def filter_map comp_def)
qed

subsection \<open>Rows across a save\<close>

lemma node_frame_refl [simp]: "node_frame n n"
  by (simp add: node_frame_def)

lemma node_frame_trans: "node_frame a b \<Longrightarrow> node_frame b c \<Longrightarrow> node_frame a c"
  by (simp add: node_frame_def)

lemma edge_frame_refl [simp]: "edge_frame e e"
  by (simp add: edge_frame_def)

lemma edge_frame_trans: "edge_frame a b \<Longrightarrow> edge_frame b c \<Longrightarrow> edge_frame a c"
  by (simp add: edge_frame_def)

lemma upsert_node_frame:
  assumes "n' \<in> set (dagNodes (upsert_node i g ent a b c t tx))"
  shows "(\<exists>n\<in>set (dagNodes tx). node_frame n n') \<or> (dn_id n' = i \<and> i \<notin> dn_id ` set (dagNodes tx))"
proof (cases "i \<in> set (map dn_id (dagNodes tx))")
  case True
  with assms obtain n where n: "n \<in> set (dagNodes tx)"
    and "n' = (if dn_id n = i
                then n\<lparr>dn_x := a, dn_y := b, dn_category := c, dn_type := Some t\<rparr> else n)"
    by (auto simp: upsert_node_def)
  then have "node_frame n n'" by (simp add: node_frame_def)
  with n show ?thesis by blast
next
  case False
  with assms have "n' \<in> set (dagNodes tx) \<or> dn_id n' = i"
    by (auto simp: upsert_node_def)
  with False show ?thesis by (auto intro: bexI [of _ n'])
qed

lemma upsert_node_ids:
  "dn_id ` set (dagNodes (upsert_node i g ent a b c t tx)) = insert i (dn_id ` set (dagNodes tx))"
proof (cases "i \<in> set (map dn_id (dagNodes tx))")
  case True
  let ?f = "\<lambda>n. if dn_id n = i
              then n\<lparr>dn_x := a, dn_y := b, dn_category := c, dn_type := Some t\<rparr> else n"
  have "map dn_id (map ?f (dagNodes tx)) = map dn_id (dagNodes tx)"
    by (induction "dagNodes tx") simp_all
  then have "set (map dn_id (map ?f (dagNodes tx))) = set (map dn_id (dagNodes tx))"
    by (simp only:)
  with True show ?thesis
    by (auto simp: upsert_node_def simp del: map_map)
next
  case False
  then show ?thesis by (simp add: upsert_node_def)
qed

lemma save_nodes_frame:
  assumes "save_nodes g nodes tx = Inr tx'"
  shows "dn_id ` set (dagNodes tx') = dn_id ` set (dagNodes tx) \<union> cn_id ` set nodes"
    and "n' \<in> set (dagNodes tx') \<Longrightarrow>
           (\<exists>n\<in>set (dagNodes tx). node_frame n n')
           \<or> (dn_id n' \<notin> dn_id ` set (dagNodes tx) \<and> dn_id n' \<in> cn_id ` set nodes)"
  using assms
proof (induction nodes arbitrary: tx)
  case Nil
  { case 1 then show ?case by simp }
  { case 2 then show ?case by (auto intro: bexI [of _ n']) }
next
  case (Cons node rest)
  { case 1
    from "1" obtain tx1 where s: "save_node g node tx = Inr tx1"
      and r: "save_nodes g rest tx1 = Inr tx'"
      by (auto split: sum.splits)
    from s obtain ent entity a b c where
      "tx1 = upsert_node (cn_id node) g ent a b c (save_nodeType tx node entity) tx"
      by (rule save_node_result)
    then have "dn_id ` set (dagNodes tx1) = insert (cn_id node) (dn_id ` set (dagNodes tx))"
      by (simp only: upsert_node_ids)
    with Cons.IH(1) [OF r] show ?case by auto }
  { case 2
    from "2"(2) obtain tx1 where s: "save_node g node tx = Inr tx1"
      and r: "save_nodes g rest tx1 = Inr tx'"
      by (auto split: sum.splits)
    from s obtain ent entity a b c where
      tx1: "tx1 = upsert_node (cn_id node) g ent a b c (save_nodeType tx node entity) tx"
      by (rule save_node_result)
    then have ids1: "dn_id ` set (dagNodes tx1) = insert (cn_id node) (dn_id ` set (dagNodes tx))"
      by (simp only: upsert_node_ids)
    from Cons.IH(2) [OF "2"(1) r]
    consider n1 where "n1 \<in> set (dagNodes tx1)" "node_frame n1 n'"
      | "dn_id n' \<notin> dn_id ` set (dagNodes tx1)" "dn_id n' \<in> cn_id ` set rest"
      by blast
    then show ?case
    proof cases
      case 1
      from upsert_node_frame [OF "1"(1) [unfolded tx1]]
      consider n where "n \<in> set (dagNodes tx)" "node_frame n n1"
        | "dn_id n1 = cn_id node" "cn_id node \<notin> dn_id ` set (dagNodes tx)"
        by blast
      then show ?thesis
      proof cases
        case 1
        with \<open>node_frame n1 n'\<close> show ?thesis by (blast intro: node_frame_trans)
      next
        case 2
        moreover from \<open>node_frame n1 n'\<close> have "dn_id n' = dn_id n1" by (simp add: node_frame_def)
        ultimately show ?thesis by simp
      qed
    next
      case 2
      with ids1 show ?thesis by auto
    qed }
qed

lemma upsert_edge_frame:
  assumes "upsert_edge g edge r l tx = Inr tx'"
  shows "de_id ` set (dagEdges tx') = insert (ce_id edge) (de_id ` set (dagEdges tx))"
    and "e' \<in> set (dagEdges tx') \<Longrightarrow>
           (\<exists>e\<in>set (dagEdges tx). edge_frame e e')
           \<or> (de_id e' = ce_id edge \<and> ce_id edge \<notin> de_id ` set (dagEdges tx))"
proof -
  let ?f = "\<lambda>e. if de_id e = ce_id edge
      then e\<lparr>de_relationshipTypeId := r, de_label := l,
             de_sourceHandle := or_null (ce_sourceHandle edge),
             de_targetHandle := or_null (ce_targetHandle edge)\<rparr> else e"
  show "de_id ` set (dagEdges tx') = insert (ce_id edge) (de_id ` set (dagEdges tx))"
  proof (cases "ce_id edge \<in> set (map de_id (dagEdges tx))")
    case True
    have "map de_id (map ?f (dagEdges tx)) = map de_id (dagEdges tx)"
      by (induction "dagEdges tx") simp_all
    then have "set (map de_id (map ?f (dagEdges tx))) = set (map de_id (dagEdges tx))"
      by (simp only:)
    with True assms show ?thesis
      by (auto simp: upsert_edge_def simp del: map_map split: if_splits)
  next
    case False
    with assms show ?thesis by (auto simp: upsert_edge_def split: if_splits)
  qed
  show "(\<exists>e\<in>set (dagEdges tx). edge_frame e e')
           \<or> (de_id e' = ce_id edge \<and> ce_id edge \<notin> de_id ` set (dagEdges tx))"
    if e': "e' \<in> set (dagEdges tx')"
  proof (cases "ce_id edge \<in> set (map de_id (dagEdges tx))")
    case True
    with assms have "dagEdges tx' = map ?f (dagEdges tx)"
      by (auto simp: upsert_edge_def split: if_splits)
    with e' obtain e where e: "e \<in> set (dagEdges tx)" "e' = ?f e" by auto
    then have "edge_frame e e'" by (simp add: edge_frame_def)
    with e(1) show ?thesis by blast
  next
    case False
    with assms e' have "e' \<in> set (dagEdges tx) \<or> de_id e' = ce_id edge"
      by (auto simp: upsert_edge_def split: if_splits)
    with False show ?thesis by (auto intro: bexI [of _ e'])
  qed
qed

lemma save_edge_upsert:
  assumes "save_edge g edge tx = Inr tx'"
  obtains r l where "upsert_edge g edge r l tx = Inr tx'"
  using assms unfolding save_edge_def Let_def by (auto split: if_splits)

lemma save_edges_frame:
  assumes "save_edges g edges tx = Inr tx'"
  shows "de_id ` set (dagEdges tx') = de_id ` set (dagEdges tx) \<union> ce_id ` set edges"
    and "e' \<in> set (dagEdges tx') \<Longrightarrow>
           (\<exists>e\<in>set (dagEdges tx). edge_frame e e')
           \<or> (de_id e' \<notin> de_id ` set (dagEdges tx) \<and> de_id e' \<in> ce_id ` set edges)"
  using assms
proof (induction edges arbitrary: tx)
  case Nil
  { case 1 then show ?case by simp }
  { case 2 then show ?case by (auto intro: bexI [of _ e']) }
next
  case (Cons edge rest)
  { case 1
    from "1" obtain tx1 where s: "save_edge g edge tx = Inr tx1"
      and r: "save_edges g rest tx1 = Inr tx'"
      by (auto split: sum.splits)
    from s obtain rt l where u: "upsert_edge g edge rt l tx = Inr tx1"
      by (rule save_edge_upsert)
    from upsert_edge_frame(1) [OF u] Cons.IH(1) [OF r] show ?case by auto }
  { case 2
    from "2"(2) obtain tx1 where s: "save_edge g edge tx = Inr tx1"
      and r: "save_edges g rest tx1 = Inr tx'"
      by (auto split: sum.splits)
    from s obtain rt l where u: "upsert_edge g edge rt l tx = Inr tx1"
      by (rule save_edge_upsert)
    note ids1 = upsert_edge_frame(1) [OF u]
    from Cons.IH(2) [OF "2"(1) r]
    consider e1 where "e1 \<in> set (dagEdges tx1)" "edge_frame e1 e'"
      | "de_id e' \<notin> de_id ` set (dagEdges tx1)" "de_id e' \<in> ce_id ` set rest"
      by blast
    then show ?case
    proof cases
      case 1
      from upsert_edge_frame(2) [OF u "1"(1)]
      consider e where "e \<in> set (dagEdges tx)" "edge_frame e e1"
        | "de_id e1 = ce_id edge" "ce_id edge \<notin> de_id ` set (dagEdges tx)"
        by blast
      then show ?thesis
      proof cases
        case 1
        with \<open>edge_frame e1 e'\<close> show ?thesis by (blast intro: edge_frame_trans)
      next
        case 2
        moreover from \<open>edge_frame e1 e'\<close> have "de_id e' = de_id e1" by (simp add: edge_frame_def)
        ultimately show ?thesis by simp
      qed
    next
      case 2
      with ids1 show ?thesis by auto
    qed }
qed

lemma same_key_same_row:
  assumes "distinct (map k xs)" "a \<in> set xs" "b \<in> set xs" "k a = k b"
  shows "a = b"
  using assms by (meson distinct_map inj_onD)

lemma save_transaction_node_frame:
  assumes t: "save_transaction g nodes edges st = Inr st'"
    and d: "distinct (map dn_id (dagNodes st))"
    and n: "n \<in> set (dagNodes st)" and n': "n' \<in> set (dagNodes st')"
    and i: "dn_id n' = dn_id n"
  shows "node_frame n n'"
proof -
  from t obtain tx1 tx2 tx3 where
    s1: "tx1 = (if nodes \<noteq> [] then deleteMany_nodes g (map cn_id nodes) st else st)"
    and s2: "save_nodes g nodes tx1 = Inr tx2"
    and s3: "tx3 = (if edges \<noteq> [] then deleteMany_edges g (map ce_id edges) tx2 else tx2)"
    and s4: "save_edges g edges tx3 = Inr st'"
    by (rule save_transaction_stages)
  have sub: "set (dagNodes tx1) \<subseteq> set (dagNodes st)" using s1 by auto
  from save_edges_nodes [OF s4] s3 have "dagNodes st' = dagNodes tx2" by simp
  with n' have "n' \<in> set (dagNodes tx2)" by simp
  from save_nodes_frame(2) [OF s2 this]
  consider n1 where "n1 \<in> set (dagNodes tx1)" "node_frame n1 n'"
    | "dn_id n' \<notin> dn_id ` set (dagNodes tx1)" "dn_id n' \<in> cn_id ` set nodes"
    by blast
  then show ?thesis
  proof cases
    case 1
    from "1"(2) i have "dn_id n1 = dn_id n" by (simp add: node_frame_def)
    with d sub "1"(1) n have "n1 = n" by (blast intro: same_key_same_row)
    with "1"(2) show ?thesis by simp
  next
    case 2
    from "2"(2) i have "\<not> node_delete_filter g (map cn_id nodes) n"
      by (auto simp: node_delete_filter_def)
    with n s1 have "n \<in> set (dagNodes tx1)" by simp
    with "2"(1) i show ?thesis by auto
  qed
qed

lemma save_transaction_edge_frame:
  assumes t: "save_transaction g nodes edges st = Inr st'"
    and k: "keys_ok st"
    and e: "e \<in> set (dagEdges st)" and e': "e' \<in> set (dagEdges st')"
    and i: "de_id e' = de_id e"
    and src: "de_sourceId e \<in> dn_id ` set (dagNodes st')"
    and tgt: "de_targetId e \<in> dn_id ` set (dagNodes st')"
  shows "edge_frame e e'"
proof -
  from t obtain tx1 tx2 tx3 where
    s1: "tx1 = (if nodes \<noteq> [] then deleteMany_nodes g (map cn_id nodes) st else st)"
    and s2: "save_nodes g nodes tx1 = Inr tx2"
    and s3: "tx3 = (if edges \<noteq> [] then deleteMany_edges g (map ce_id edges) tx2 else tx2)"
    and s4: "save_edges g edges tx3 = Inr st'"
    by (rule save_transaction_stages)
  from k have dn: "distinct (map dn_id (dagNodes st))" and de: "distinct (map de_id (dagEdges st))"
    by (simp_all add: keys_ok_def)
  from save_edges_nodes [OF s4] s3 have "dagNodes st' = dagNodes tx2" by simp
  with save_nodes_frame(1) [OF s2]
  have ids': "dn_id ` set (dagNodes st') = dn_id ` set (dagNodes tx1) \<union> cn_id ` set nodes" by simp
  \<comment> \<open>a node that is still there after the save was not deleted by it\<close>
  have kept: "x \<notin> set (map dn_id (filter (node_delete_filter g (map cn_id nodes)) (dagNodes st)))"
    if x: "x \<in> dn_id ` set (dagNodes st')" and ne: "nodes \<noteq> []" for x
  proof
    assume "x \<in> set (map dn_id (filter (node_delete_filter g (map cn_id nodes)) (dagNodes st)))"
    then obtain m where m: "m \<in> set (dagNodes st)" "node_delete_filter g (map cn_id nodes) m"
      "dn_id m = x" by auto
    from m(2,3) have "x \<notin> cn_id ` set nodes" by (auto simp: node_delete_filter_def)
    with x ids' have "x \<in> dn_id ` set (dagNodes tx1)" by blast
    then obtain m' where m': "m' \<in> set (dagNodes tx1)" "dn_id m' = x" by auto
    with s1 ne have "m' \<in> set (dagNodes st)" "\<not> node_delete_filter g (map cn_id nodes) m'"
      by simp_all
    moreover from dn this(1) m(1) m'(2) m(3) have "m' = m"
      by (auto intro: same_key_same_row)
    ultimately show False using m(2) by simp
  qed
  have e1: "e \<in> set (dagEdges tx1)"
  proof (cases "nodes = []")
    case True
    with s1 e show ?thesis by simp
  next
    case False
    with s1 e kept [OF src False] kept [OF tgt False] show ?thesis by simp
  qed
  with save_nodes_edges [OF s2] have e2: "e \<in> set (dagEdges tx2)" by simp
  have sub3: "set (dagEdges tx3) \<subseteq> set (dagEdges st)"
    using s3 s1 save_nodes_edges [OF s2] by auto
  from save_edges_frame(2) [OF s4 e']
  consider e3 where "e3 \<in> set (dagEdges tx3)" "edge_frame e3 e'"
    | "de_id e' \<notin> de_id ` set (dagEdges tx3)" "de_id e' \<in> ce_id ` set edges"
    by blast
  then show ?thesis
  proof cases
    case 1
    from "1"(2) i have "de_id e3 = de_id e" by (simp add: edge_frame_def)
    with de sub3 "1"(1) e have "e3 = e" by (blast intro: same_key_same_row)
    with "1"(2) show ?thesis by simp
  next
    case 2
    from "2"(2) i e2 s3 have "e \<in> set (dagEdges tx3)" by auto
    with "2"(1) i show ?thesis by auto
  qed
qed

subsection \<open>The claims about the save route\<close>

text \<open>
  C1 (amended).  The save route decides whether a submitted node is the root from the
  \<open>type\<close> the client sends for it.  Over any sequence of save calls in which every
  client list labels as \<open>root\<close> exactly the submitted nodes whose id is that of a
  persisted root node, a graph that has exactly one root node, stored at (0,0), keeps
  exactly that one root node, at position (0,0): lists that omit the root and lists that
  give the root another position are covered.  (Ids are unique in the tables.)
\<close>

theorem save_calls_keep_root:
  assumes "keys_ok st" and "roots_at_origin st" and "length (roots_of st g) = 1"
    and "list_all (\<lambda>c. root_hints_match (root_ids st) (fst (snd c))) calls"
  shows "length (roots_of (save_calls st calls) g) = 1
       \<and> map dn_id (roots_of (save_calls st calls) g) = map dn_id (roots_of st g)
       \<and> list_all (\<lambda>n. dn_x n = 0 \<and> dn_y n = 0) (roots_of (save_calls st calls) g)"
proof -
  let ?st' = "save_calls st calls"
  from save_calls_roots [OF assms(1,2,4)]
  have k: "root_keys ?st' = root_keys st" and o: "roots_at_origin ?st'" by simp_all
  from k have ids: "map dn_id (roots_of ?st' g) = map dn_id (roots_of st g)"
    by (simp only: roots_of_keys)
  then have "length (map dn_id (roots_of ?st' g)) = length (map dn_id (roots_of st g))"
    by (simp only:)
  with assms(3) have len: "length (roots_of ?st' g) = 1" by simp
  from o have "list_all (\<lambda>n. dn_x n = 0 \<and> dn_y n = 0) (roots_of ?st' g)"
    by (auto simp: roots_at_origin_def roots_of_def list_all_iff)
  with ids len show ?thesis by simp
qed

theorem save_calls_keep_root_witness:
  "length (roots_of (save_calls sample_store calls_keeping_root) ''g1'') = 1
   \<and> map dn_id (roots_of (save_calls sample_store calls_keeping_root) ''g1'') = [''r'']
   \<and> list_all (\<lambda>n. dn_x n = 0 \<and> dn_y n = 0)
        (roots_of (save_calls sample_store calls_keeping_root) ''g1'')"
proof -
  have h1: "keys_ok sample_store" by code_simp
  have h2: "roots_at_origin sample_store" by code_simp
  have h3: "length (roots_of sample_store ''g1'') = 1" by code_simp
  have h4: "list_all (\<lambda>c. root_hints_match (root_ids sample_store) (fst (snd c))) calls_keeping_root"
    by code_simp
  have r: "map dn_id (roots_of sample_store ''g1'') = [''r'']" by code_simp
  from save_calls_keep_root [OF h1 h2 h3 h4] r show ?thesis by simp
qed

theorem save_root_count_counterexample:
  "length (roots_of sample_store ''g1'') = 1
   \<and> length (roots_of (save_calls sample_store [(''g1'', nodes_second_root, [])]) ''g1'') = 2
   \<and> length (roots_of (save_calls sample_store [(''g1'', nodes_root_relabelled, [])]) ''g1'') = 0"
  by code_simp

text \<open>
  C2 (amended).  A save with an empty client node list deletes no node: every persisted
  node, root or not, is left as it was.  With the edge list empty as well, the save of an
  existing graph succeeds and leaves the whole store, nodes and edges, unchanged.
\<close>

theorem save_empty_lists_delete_nothing:
  "dagNodes (snd (POST_save st g [] edges)) = dagNodes st
   \<and> (g \<in> set (dagIds st) \<longrightarrow> POST_save st g [] [] = (Inr (), st))"
proof
  obtain r st' where p: "POST_save st g [] edges = (r, st')"
    by (cases "POST_save st g [] edges")
  then have "dagNodes st' = dagNodes st"
  proof (cases rule: POST_save_cases)
    case unchanged
    then show ?thesis by simp
  next
    case committed
    from committed(2)
    have s4: "save_edges g edges (if edges \<noteq> [] then deleteMany_edges g (map ce_id edges) st else st)
                = Inr st'"
      by (simp add: save_transaction_def)
    have "dagNodes (if edges \<noteq> [] then deleteMany_edges g (map ce_id edges) st else st) = dagNodes st"
      by simp
    with save_edges_nodes [OF s4] show ?thesis by simp
  qed
  with p show "dagNodes (snd (POST_save st g [] edges)) = dagNodes st" by simp
next
  show "g \<in> set (dagIds st) \<longrightarrow> POST_save st g [] [] = (Inr (), st)"
    by (simp add: POST_save_def save_transaction_def)
qed

theorem save_empty_lists_delete_nothing_witness:
  "POST_save sample_store ''g1'' [] [] = (Inr (), sample_store)
   \<and> dagNodes (snd (POST_save sample_store ''g1'' [] [sent_edge ''x9'' ''n1'' ''r''])) = dagNodes sample_store"
proof -
  have "''g1'' \<in> set (dagIds sample_store)" by (simp add: sample_store_def)
  with save_empty_lists_delete_nothing [of sample_store "''g1''" "[]"]
    save_empty_lists_delete_nothing [of sample_store "''g1''" "[sent_edge ''x9'' ''n1'' ''r'']"]
  show ?thesis by blast
qed

theorem save_empty_lists_counterexample:
  "fst (POST_save sample_store ''g1'' [] []) = Inr ()
   \<and> map dn_id (filter (\<lambda>n. \<not> is_root n) (dagNodes (snd (POST_save sample_store ''g1'' [] []))))
       = [''n1'', ''n2'']
   \<and> map de_id (dagEdges (snd (POST_save sample_store ''g1'' [] []))) = [''x1'']"
  by code_simp

text \<open>
  C9 (amended).  For every node row that is persisted before a save, the row found under
  the same id afterwards has the same id, graph and entity, whatever the client sent:
  only position, category and type can differ; a row whose id is in the client list is
  still there after the save.  For every edge row persisted before the save whose source
  and target nodes are still persisted afterwards, the row found under the same id
  afterwards has the same graph, source, target and originating event: only relationship
  type, label and handles can differ.  (An edge removed together with a deleted endpoint
  node and sent again under its old id is inserted anew, with the endpoints the client
  sent.)
\<close>

theorem save_updates_frame:
  assumes "keys_ok st" and "POST_save st g nodes edges = (r, st')"
  shows "(\<forall>n\<in>set (dagNodes st). \<forall>n'\<in>set (dagNodes st'). dn_id n' = dn_id n \<longrightarrow> node_frame n n')
       \<and> (\<forall>n\<in>set (dagNodes st). dn_id n \<in> cn_id ` set nodes \<longrightarrow> dn_id n \<in> dn_id ` set (dagNodes st'))
       \<and> (\<forall>e\<in>set (dagEdges st). \<forall>e'\<in>set (dagEdges st').
             de_id e' = de_id e \<and> de_sourceId e \<in> dn_id ` set (dagNodes st')
               \<and> de_targetId e \<in> dn_id ` set (dagNodes st') \<longrightarrow> edge_frame e e')"
  using assms(2)
proof (cases rule: POST_save_cases)
  case unchanged
  from assms(1) have dn: "distinct (map dn_id (dagNodes st))" and de: "distinct (map de_id (dagEdges st))"
    by (simp_all add: keys_ok_def)
  have "node_frame n n'" if "n \<in> set (dagNodes st)" "n' \<in> set (dagNodes st)" "dn_id n' = dn_id n" for n n'
    using same_key_same_row [OF dn that(1,2) that(3) [symmetric]] by simp
  moreover
  have "edge_frame e e'" if "e \<in> set (dagEdges st)" "e' \<in> set (dagEdges st)" "de_id e' = de_id e" for e e'
    using same_key_same_row [OF de that(1,2) that(3) [symmetric]] by simp
  ultimately show ?thesis unfolding unchanged by blast
next
  case committed
  note t = committed(2)
  from assms(1) have dn: "distinct (map dn_id (dagNodes st))" by (simp add: keys_ok_def)
  from t obtain tx1 tx2 tx3 where
    s1: "tx1 = (if nodes \<noteq> [] then deleteMany_nodes g (map cn_id nodes) st else st)"
    and s2: "save_nodes g nodes tx1 = Inr tx2"
    and s3: "tx3 = (if edges \<noteq> [] then deleteMany_edges g (map ce_id edges) tx2 else tx2)"
    and s4: "save_edges g edges tx3 = Inr st'"
    by (rule save_transaction_stages)
  from save_edges_nodes [OF s4] s3 have "dagNodes st' = dagNodes tx2" by simp
  with save_nodes_frame(1) [OF s2]
  have still: "cn_id ` set nodes \<subseteq> dn_id ` set (dagNodes st')" by simp
  have a: "\<forall>n\<in>set (dagNodes st). \<forall>n'\<in>set (dagNodes st'). dn_id n' = dn_id n \<longrightarrow> node_frame n n'"
    using save_transaction_node_frame [OF t dn] by blast
  have b: "\<forall>e\<in>set (dagEdges st). \<forall>e'\<in>set (dagEdges st').
             de_id e' = de_id e \<and> de_sourceId e \<in> dn_id ` set (dagNodes st')
               \<and> de_targetId e \<in> dn_id ` set (dagNodes st') \<longrightarrow> edge_frame e e'"
    using save_transaction_edge_frame [OF t assms(1)] by blast
  from a b still show ?thesis by blast
qed

theorem save_updates_frame_witness:
  "node_frame (sample_node ''n1'' ''e1'' ''custom'' 100 50)
     (dagNodes (snd (POST_save sample_store ''g1'' nodes_swapped_entities [sent_edge ''x1'' ''n2'' ''r''])) ! 1)
   \<and> edge_frame (sample_edge ''x1'' ''n1'' ''n2'')
     (dagEdges (snd (POST_save sample_store ''g1'' nodes_swapped_entities [sent_edge ''x1'' ''n2'' ''r''])) ! 0)
   \<and> fst (POST_save sample_store ''g1'' nodes_swapped_entities [sent_edge ''x1'' ''n2'' ''r'']) = Inr ()"
proof -
  let ?p = "POST_save sample_store ''g1'' nodes_swapped_entities [sent_edge ''x1'' ''n2'' ''r'']"
  have k: "keys_ok sample_store" by code_simp
  have p: "?p = (fst ?p, snd ?p)" by simp
  note f = save_updates_frame [OF k p]
  have n: "sample_node ''n1'' ''e1'' ''custom'' 100 50 \<in> set (dagNodes sample_store)"
    by (simp add: sample_store_def)
  have n': "dagNodes (snd ?p) ! 1 \<in> set (dagNodes (snd ?p))"
    by (rule nth_mem) code_simp
  have ni: "dn_id (dagNodes (snd ?p) ! 1) = dn_id (sample_node ''n1'' ''e1'' ''custom'' 100 50)"
    by code_simp
  have e: "sample_edge ''x1'' ''n1'' ''n2'' \<in> set (dagEdges sample_store)"
    by (simp add: sample_store_def)
  have e': "dagEdges (snd ?p) ! 0 \<in> set (dagEdges (snd ?p))"
    by (rule nth_mem) code_simp
  have ei: "de_id (dagEdges (snd ?p) ! 0) = de_id (sample_edge ''x1'' ''n1'' ''n2'')"
    by code_simp
  have es: "de_sourceId (sample_edge ''x1'' ''n1'' ''n2'') \<in> dn_id ` set (dagNodes (snd ?p))"
    "de_targetId (sample_edge ''x1'' ''n1'' ''n2'') \<in> dn_id ` set (dagNodes (snd ?p))"
    by code_simp+
  have ok: "fst ?p = Inr ()" by code_simp
  from f n n' ni have "node_frame (sample_node ''n1'' ''e1'' ''custom'' 100 50) (dagNodes (snd ?p) ! 1)"
    by blast
  moreover from f e e' ei es
  have "edge_frame (sample_edge ''x1'' ''n1'' ''n2'') (dagEdges (snd ?p) ! 0)"
    by blast
  ultimately show ?thesis using ok by blast
qed

theorem save_edge_endpoints_counterexample:
  "map (\<lambda>e. (de_id e, de_sourceId e, de_targetId e)) (dagEdges sample_store) = [(''x1'', ''n1'', ''n2'')]
   \<and> fst (POST_save sample_store ''g1'' nodes_without_n2 [sent_edge ''x1'' ''n1'' ''r'']) = Inr ()
   \<and> map (\<lambda>e. (de_id e, de_sourceId e, de_targetId e))
        (dagEdges (snd (POST_save sample_store ''g1'' nodes_without_n2 [sent_edge ''x1'' ''n1'' ''r''])))
       = [(''x1'', ''n1'', ''r'')]"
  by code_simp

section \<open>Properties of entity creation\<close>

lemma parse_short_name:
  "ceb_name body = Some n \<Longrightarrow> length n < 2 \<Longrightarrow> CreateEntitySchema_parse body = None"
  by (simp add: CreateEntitySchema_parse_def)

lemma parse_name:
  "CreateEntitySchema_parse body = Some d \<Longrightarrow> ceb_name body = Some (ced_name d) \<and> 2 \<le> length (ced_name d)"
  by (auto simp: CreateEntitySchema_parse_def split: option.splits if_splits)

text \<open>
  C10.  A name shorter than two characters is rejected with the validation error (status
  400, "Invalid data") and the store is left as it was, whatever role id comes with it,
  also one of an existing role.  Every accepted request returns the entity it has stored,
  and the avatar of that entity is the avatar URL built from the submitted name.
\<close>

theorem createEntity_name_and_avatar:
  "(ceb_name body = Some n \<and> length n < 2 \<longrightarrow>
      POST_entities st newId body = (Inl (400, ''Invalid data''), st))
   \<and> (POST_entities st newId body = (Inr e, st') \<longrightarrow>
        ceb_name body = Some (entity_name e)
        \<and> entity_avatar e =
            Some (''https://ui-avatars.com/api/?name='' @ encodeURIComponent (entity_name e)
                    @ ''&background=random'')
        \<and> entities st' = entities st @ [e])"
proof (rule conjI)
  show "ceb_name body = Some n \<and> length n < 2 \<longrightarrow>
      POST_entities st newId body = (Inl (400, ''Invalid data''), st)"
  proof
    assume "ceb_name body = Some n \<and> length n < 2"
    then have "CreateEntitySchema_parse body = None" by (simp add: parse_short_name)
    then show "POST_entities st newId body = (Inl (400, ''Invalid data''), st)"
      by (simp add: POST_entities_def)
  qed
next
  show "POST_entities st newId body = (Inr e, st') \<longrightarrow>
        ceb_name body = Some (entity_name e)
        \<and> entity_avatar e =
            Some (''https://ui-avatars.com/api/?name='' @ encodeURIComponent (entity_name e)
                    @ ''&background=random'')
        \<and> entities st' = entities st @ [e]"
  proof
    assume p: "POST_entities st newId body = (Inr e, st')"
    then obtain d where d: "CreateEntitySchema_parse body = Some d"
      by (auto simp: POST_entities_def split: option.splits)
    with p have e: "e = \<lparr>entity_id = newId, entity_name = ced_name d, entity_roleId = ced_roleId d,
          entity_entityType = ced_entityType d, entity_description = ced_description d,
          entity_avatar = Some (avatar_url (ced_name d))\<rparr>"
      and s: "st' = st\<lparr>entities := entities st @ [e]\<rparr>"
      by (auto simp: POST_entities_def Let_def split: option.splits if_splits)
    from parse_name [OF d] e s
    show "ceb_name body = Some (entity_name e)
          \<and> entity_avatar e =
              Some (''https://ui-avatars.com/api/?name='' @ encodeURIComponent (entity_name e)
                      @ ''&background=random'')
          \<and> entities st' = entities st @ [e]"
      by (simp add: avatar_url_def)
  qed
qed

theorem createEntity_name_and_avatar_witness:
  "POST_entities sample_store ''e9'' (body_named ''A'') = (Inl (400, ''Invalid data''), sample_store)
   \<and> entity_avatar (projr (fst (POST_entities sample_store ''e9'' (body_named ''Al B''))))
       = Some ''https://ui-avatars.com/api/?name=Al%20B&background=random''
   \<and> fst (POST_entities sample_store ''e9'' (body_named ''Al B'')) \<noteq> Inl (400, ''Invalid data'')"
proof -
  let ?p = "POST_entities sample_store ''e9'' (body_named ''Al B'')"
  have a: "ceb_name (body_named ''A'') = Some ''A'' \<and> length ''A'' < 2"
    by (simp add: body_named_def)
  have b: "?p = (Inr (projr (fst ?p)), snd ?p)" by code_simp
  have n: "entity_name (projr (fst ?p)) = ''Al B''" by code_simp
  have u: "encodeURIComponent ''Al B'' = ''Al%20B''" by code_simp
  from createEntity_name_and_avatar [of "body_named ''A''" "''A''" sample_store "''e9''"] a
  have 1: "POST_entities sample_store ''e9'' (body_named ''A'') = (Inl (400, ''Invalid data''), sample_store)"
    by blast
  from createEntity_name_and_avatar [of "body_named ''Al B''" "''''" sample_store "''e9''"
      "projr (fst ?p)" "snd ?p"] b
  have "entity_avatar (projr (fst ?p)) =
          Some (''https://ui-avatars.com/api/?name='' @ encodeURIComponent (entity_name (projr (fst ?p)))
                  @ ''&background=random'')"
    by blast
  with n u have 2: "entity_avatar (projr (fst ?p))
       = Some ''https://ui-avatars.com/api/?name=Al%20B&background=random''"
    by simp
  from b have 3: "fst ?p \<noteq> Inl (400, ''Invalid data'')"
    by (metis fst_conv sum.distinct(1))
  from 1 2 3 show ?thesis by blast
qed

section \<open>Properties of the reorder route\<close>

lemma reorder_row_id [simp]: "ev_id (reorder_row ids k e) = ev_id e"
  by (induction ids arbitrary: k e) simp_all

lemma reorder_row_other: "ev_id e \<notin> set ids \<Longrightarrow> reorder_row ids k e = e"
  by (induction ids arbitrary: k e) simp_all

lemma reorder_row_frame: "reorder_row ids k e = e\<lparr>ev_sortOrder := ev_sortOrder (reorder_row ids k e)\<rparr>"
proof (induction ids arbitrary: k e)
  case Nil
  show ?case by simp
next
  case (Cons i rest)
  let ?e1 = "if ev_id e = i then e\<lparr>ev_sortOrder := int k\<rparr> else e"
  have "reorder_row rest (k + 1) ?e1 = ?e1\<lparr>ev_sortOrder := ev_sortOrder (reorder_row rest (k + 1) ?e1)\<rparr>"
    by (rule Cons.IH)
  then show ?case by (cases "ev_id e = i") simp_all
qed

lemma reorder_row_index:
  assumes "distinct ids" "j < length ids" "ev_id e = ids ! j"
  shows "ev_sortOrder (reorder_row ids k e) = int (k + j)"
  using assms
proof (induction ids arbitrary: k e j)
  case Nil
  then show ?case by simp
next
  case (Cons i rest)
  show ?case
  proof (cases j)
    case 0
    with Cons.prems have "ev_id e = i" "i \<notin> set rest" by simp_all
    then show ?thesis using 0 by (simp add: reorder_row_other)
  next
    case (Suc j')
    with Cons.prems have j': "j' < length rest" "ev_id e = rest ! j'" "distinct rest" by simp_all
    then have "ev_id e \<in> set rest" by simp
    with Cons.prems(1) have "ev_id e \<noteq> i" by auto
    with Cons.IH [OF j'(3) j'(1), of e "k + 1"] j'(2) Suc show ?thesis by simp
  qed
qed

lemma update_all_map:
  assumes "set ids \<subseteq> ev_id ` set (events st)"
  shows "update_all st ids k = Inr (st\<lparr>events := map (reorder_row ids k) (events st)\<rparr>)"
  using assms
proof (induction ids arbitrary: st k)
  case Nil
  show ?case by (simp add: map_idI)
next
  case (Cons i rest)
  let ?u = "\<lambda>e. if ev_id e = i then e\<lparr>ev_sortOrder := int k\<rparr> else e"
  let ?st1 = "st\<lparr>events := map ?u (events st)\<rparr>"
  from Cons.prems have "i \<in> set (map ev_id (events st))" by simp
  then have u: "update_sortOrder st i (int k) = Inr ?st1"
    by (simp add: update_sortOrder_def)
  have "ev_id \<circ> ?u = ev_id" by (rule ext) simp
  then have "map ev_id (events ?st1) = map ev_id (events st)" by simp
  then have "set (map ev_id (events ?st1)) = set (map ev_id (events st))" by (simp only:)
  then have "ev_id ` set (events ?st1) = ev_id ` set (events st)" by (simp only: set_map)
  with Cons.prems have "set rest \<subseteq> ev_id ` set (events ?st1)" by simp
  from Cons.IH [OF this, of "k + 1"] u show ?case
    by (simp add: comp_def)
qed

lemma found_length:
  assumes d: "distinct (map ev_id evs)"
  shows "length (filter (\<lambda>e. ev_id e \<in> set ids \<and> P e) evs) = length ids
           \<longleftrightarrow> distinct ids \<and> (\<forall>i\<in>set ids. \<exists>e\<in>set (filter P evs). ev_id e = i)"
proof -
  let ?found = "filter (\<lambda>e. ev_id e \<in> set ids \<and> P e) evs"
  let ?D = "ev_id ` set (filter P evs)"
  from d have "distinct (map ev_id ?found)" by (rule distinct_map_filter)
  then have "card (set (map ev_id ?found)) = length (map ev_id ?found)"
    by (rule distinct_card)
  then have "card (set (map ev_id ?found)) = length ?found"
    by (simp only: length_map)
  moreover have "set (map ev_id ?found) = set ids \<inter> ?D" by auto
  ultimately have len: "length ?found = card (set ids \<inter> ?D)" by simp
  have le1: "card (set ids \<inter> ?D) \<le> card (set ids)" by (simp add: card_mono)
  have le2: "card (set ids) \<le> length ids" by (rule card_length)
  show ?thesis
  proof
    assume "length ?found = length ids"
    with len le1 le2 have c1: "card (set ids) = length ids" and c2: "card (set ids \<inter> ?D) = card (set ids)"
      by simp_all
    from c1 have "distinct ids" by (rule card_distinct)
    moreover from c2 have "set ids \<inter> ?D = set ids"
      by (intro card_subset_eq) simp_all
    then have "set ids \<subseteq> ?D" by blast
    then have "\<forall>i\<in>set ids. \<exists>e\<in>set (filter P evs). ev_id e = i" by (auto simp: image_iff)
    ultimately show "distinct ids \<and> (\<forall>i\<in>set ids. \<exists>e\<in>set (filter P evs). ev_id e = i)" by simp
  next
    assume a: "distinct ids \<and> (\<forall>i\<in>set ids. \<exists>e\<in>set (filter P evs). ev_id e = i)"
    then have "set ids \<inter> ?D = set ids" by (auto simp: image_iff)
    with len a show "length ?found = length ids" by (simp add: distinct_card)
  qed
qed

text \<open>
  C6 (amended).  For the events of a graph on a date, a reorder request is accepted
  exactly when the submitted ids are pairwise different and each of them is the id of an
  event of that graph on that date.  An accepted request sets the sort order of every
  listed event to its index in the list and changes nothing else: events of that date
  left out of the list keep their sort order.  Any other request with graph id, valid
  date and id list fails with the validation error (status 400) and changes nothing.
\<close>

theorem reorder_listed_events:
  assumes "distinct (map ev_id (events st))" and "dagId \<noteq> []"
  shows "(distinct ids \<and> (\<forall>i\<in>set ids. \<exists>e\<in>set (events_on_day st dagId t). ev_id e = i) \<longrightarrow>
            fst (POST_reorder st dagId (DateAt t) (Some ids)) = Inr ()
            \<and> map ev_id (events (snd (POST_reorder st dagId (DateAt t) (Some ids)))) = map ev_id (events st)
            \<and> (\<forall>j<length ids. \<forall>e'\<in>set (events (snd (POST_reorder st dagId (DateAt t) (Some ids)))).
                   ev_id e' = ids ! j \<longrightarrow> ev_sortOrder e' = int j)
            \<and> (\<forall>n<length (events st).
                   events (snd (POST_reorder st dagId (DateAt t) (Some ids))) ! n
                     = (events st ! n)\<lparr>ev_sortOrder :=
                          ev_sortOrder (events (snd (POST_reorder st dagId (DateAt t) (Some ids))) ! n)\<rparr>
                   \<and> (ev_id (events st ! n) \<notin> set ids \<longrightarrow>
                        events (snd (POST_reorder st dagId (DateAt t) (Some ids))) ! n = events st ! n)))
       \<and> (\<not> (distinct ids \<and> (\<forall>i\<in>set ids. \<exists>e\<in>set (events_on_day st dagId t). ev_id e = i)) \<longrightarrow>
            POST_reorder st dagId (DateAt t) (Some ids)
              = (Inl (400, ''Some events not found or not on the specified date''), st))"
proof -
  let ?ok = "distinct ids \<and> (\<forall>i\<in>set ids. \<exists>e\<in>set (events_on_day st dagId t). ev_id e = i)"
  let ?found = "filter (\<lambda>e. ev_id e \<in> set ids \<and> ev_dagId e = dagId \<and> on_day t e) (events st)"
  have len: "length ?found = length ids \<longleftrightarrow> ?ok"
    using found_length [OF assms(1), of ids "\<lambda>e. ev_id e = ev_id e \<and> ev_dagId e = dagId \<and> on_day t e"]
    by (simp add: events_on_day_def)
  have bad: "POST_reorder st dagId (DateAt t) (Some ids)
              = (Inl (400, ''Some events not found or not on the specified date''), st)" if "\<not> ?ok"
    using that len assms(2) by (simp add: POST_reorder_def Let_def)
  have good: "POST_reorder st dagId (DateAt t) (Some ids)
                = (Inr (), st\<lparr>events := map (reorder_row ids 0) (events st)\<rparr>)" if ok: "?ok"
  proof -
    from ok have "set ids \<subseteq> ev_id ` set (events st)"
      by (auto simp: events_on_day_def)
    from update_all_map [OF this, of 0] ok len assms(2) show ?thesis
      by (simp add: POST_reorder_def Let_def)
  qed
  have eff: "fst (POST_reorder st dagId (DateAt t) (Some ids)) = Inr ()
            \<and> map ev_id (events (snd (POST_reorder st dagId (DateAt t) (Some ids)))) = map ev_id (events st)
            \<and> (\<forall>j<length ids. \<forall>e'\<in>set (events (snd (POST_reorder st dagId (DateAt t) (Some ids)))).
                   ev_id e' = ids ! j \<longrightarrow> ev_sortOrder e' = int j)
            \<and> (\<forall>n<length (events st).
                   events (snd (POST_reorder st dagId (DateAt t) (Some ids))) ! n
                     = (events st ! n)\<lparr>ev_sortOrder :=
                          ev_sortOrder (events (snd (POST_reorder st dagId (DateAt t) (Some ids))) ! n)\<rparr>
                   \<and> (ev_id (events st ! n) \<notin> set ids \<longrightarrow>
                        events (snd (POST_reorder st dagId (DateAt t) (Some ids))) ! n = events st ! n))"
    if ok: "?ok"
  proof -
    let ?evs' = "map (reorder_row ids 0) (events st)"
    have a: "map ev_id ?evs' = map ev_id (events st)" by (simp add: comp_def)
    have b: "ev_sortOrder e' = int j" if "j < length ids" "e' \<in> set ?evs'" "ev_id e' = ids ! j" for j e'
    proof -
      from that(2) obtain e where e: "e' = reorder_row ids 0 e" by auto
      with that(3) have "ev_id e = ids ! j" by simp
      from reorder_row_index [OF _ that(1) this, of 0] ok e show ?thesis by simp
    qed
    have c: "?evs' ! n = (events st ! n)\<lparr>ev_sortOrder := ev_sortOrder (?evs' ! n)\<rparr>
             \<and> (ev_id (events st ! n) \<notin> set ids \<longrightarrow> ?evs' ! n = events st ! n)"
      if "n < length (events st)" for n
      using that reorder_row_frame [of ids 0 "events st ! n"]
      by (simp add: reorder_row_other)
    from a b c show ?thesis unfolding good [OF ok] by (simp del: map_map)
  qed
  from bad eff show ?thesis by blast
qed

theorem reorder_listed_events_witness:
  "fst (POST_reorder sample_events ''g1'' (DateAt 0) (Some [''v2'', ''v1''])) = Inr ()
   \<and> map ev_id (events (snd (POST_reorder sample_events ''g1'' (DateAt 0) (Some [''v2'', ''v1'']))))
       = [''v1'', ''v2'', ''v3'']
   \<and> POST_reorder sample_events ''g1'' (DateAt 0) (Some [''v1'', ''v9''])
       = (Inl (400, ''Some events not found or not on the specified date''), sample_events)"
proof -
  have d: "distinct (map ev_id (events sample_events))" by code_simp
  have g: "''g1'' \<noteq> []" by simp
  have ok: "distinct [''v2'', ''v1'']
        \<and> (\<forall>i\<in>set [''v2'', ''v1'']. \<exists>e\<in>set (events_on_day sample_events ''g1'' 0). ev_id e = i)"
    by code_simp
  have no: "\<not> (distinct [''v1'', ''v9'']
        \<and> (\<forall>i\<in>set [''v1'', ''v9'']. \<exists>e\<in>set (events_on_day sample_events ''g1'' 0). ev_id e = i))"
    by code_simp
  have m: "map ev_id (events sample_events) = [''v1'', ''v2'', ''v3'']" by code_simp
  from reorder_listed_events [OF d g, of "[''v2'', ''v1'']" 0] ok
  have "fst (POST_reorder sample_events ''g1'' (DateAt 0) (Some [''v2'', ''v1''])) = Inr ()
      \<and> map ev_id (events (snd (POST_reorder sample_events ''g1'' (DateAt 0) (Some [''v2'', ''v1'']))))
          = map ev_id (events sample_events)"
    by blast
  moreover from reorder_listed_events [OF d g, of "[''v1'', ''v9'']" 0] no
  have "POST_reorder sample_events ''g1'' (DateAt 0) (Some [''v1'', ''v9''])
       = (Inl (400, ''Some events not found or not on the specified date''), sample_events)"
    by blast
  ultimately show ?thesis using m by simp
qed

theorem reorder_omitted_events_counterexample:
  "map ev_id (events_on_day sample_events ''g1'' 0) = [''v1'', ''v2'', ''v3'']
   \<and> map ev_sortOrder (events sample_events) = [0, 1, 2]
   \<and> fst (POST_reorder sample_events ''g1'' (DateAt 0) (Some [''v2'', ''v1''])) = Inr ()
   \<and> map ev_sortOrder (events (snd (POST_reorder sample_events ''g1'' (DateAt 0) (Some [''v2'', ''v1'']))))
       = [1, 0, 2]"
  by code_simp

section \<open>Properties of the create-event route\<close>

lemma sorted_last_Max:
  fixes xs :: "int list"
  assumes "sorted xs" "xs \<noteq> []"
  shows "last xs = Max (set xs)"
  using assms
proof (induction xs)
  case Nil
  then show ?case by simp
next
  case (Cons x xs)
  show ?case
  proof (cases "xs = []")
    case True
    then show ?thesis by simp
  next
    case False
    with Cons have l: "last xs = Max (set xs)" by simp
    from Cons.prems False have "x \<le> Max (set xs)"
      by (metis List.finite_set Max_ge_iff last_in_set l set_empty sorted_simps(2))
    with False l show ?thesis by (simp add: max_def)
  qed
qed

lemma maxSortOrder_top: "maxSortOrder (top_sortOrder evs) + 1 = next_sortOrder evs"
proof (cases "evs = []")
  case True
  then show ?thesis by (simp add: maxSortOrder_def top_sortOrder_def next_sortOrder_def)
next
  case False
  let ?ys = "sort_key ev_sortOrder evs"
  from False have ne: "?ys \<noteq> []" by (metis set_empty set_sort)
  then have "rev ?ys \<noteq> []" by simp
  then have t: "take 1 (rev ?ys) = [hd (rev ?ys)]" by (cases "rev ?ys") simp_all
  have "ev_sortOrder (last ?ys) = last (map ev_sortOrder ?ys)"
    using ne by (simp add: last_map)
  also have "\<dots> = Max (set (map ev_sortOrder ?ys))"
    using ne by (intro sorted_last_Max) simp_all
  also have "\<dots> = Max (ev_sortOrder ` set evs)" by simp
  finally have "ev_sortOrder (hd (rev ?ys)) = Max (ev_sortOrder ` set evs)"
    using ne by (simp add: hd_rev)
  with t False show ?thesis
    by (simp add: maxSortOrder_def top_sortOrder_def next_sortOrder_def)
qed

lemma newSortOrder_next:
  "newSortOrder st dagId (Some t) sd = next_sortOrder (events_on_day st dagId t)"
  "newSortOrder st dagId None (Some d) = next_sortOrder (events_on_seriesDay st dagId d)"
  "newSortOrder st dagId None None = 0"
  by (simp_all add: newSortOrder_def maxSortOrder_top events_on_day_def events_on_seriesDay_def)

lemma resolve_eventType_keeps:
  assumes "resolve_eventType st nid body = Inr (i, st1)"
  shows "events st1 = events st" "dagEdges st1 = dagEdges st" "dagNodes st1 = dagNodes st"
  using assms by (auto simp: resolve_eventType_def split: if_splits option.splits)

lemma create_event_result:
  assumes "create_event st nid body tid d k = Inr (ev, st2)"
  shows "events st2 = events st @ [ev]" "dagEdges st2 = dagEdges st" "ev_sortOrder ev = k"
    "ev_createdEdgeId ev = None"
  using assms by (auto simp: create_event_def Let_def split: if_splits)

lemma find_None_filter: "find P xs = None \<longleftrightarrow> filter P xs = []"
  by (auto simp: find_None_iff filter_empty_conv)

lemma derive_edge_result:
  assumes "derive_edge st nid body ev = Inr (ce, st')"
  shows "length (events st') = length (events st)"
    and "dagEdges st' = dagEdges st @ (case ce of None \<Rightarrow> [] | Some e \<Rightarrow> [e])"
    and "\<And>e. ce = Some e \<Longrightarrow>
           edges_between st (b_dagId body) (b_sourceNodeId body) (b_targetNodeId body) = []
           \<and> de_dagId e = b_dagId body \<and> de_sourceId e = b_sourceNodeId body
           \<and> de_targetId e = b_targetNodeId body \<and> de_label e = Some (trim (b_title body))
           \<and> de_createdFromEventId e = Some (ev_id ev)"
    and "ce = None \<Longrightarrow> b_createEdge body \<Longrightarrow> b_sourceNodeId body \<noteq> [] \<Longrightarrow> b_targetNodeId body \<noteq> []
           \<Longrightarrow> edges_between st (b_dagId body) (b_sourceNodeId body) (b_targetNodeId body) \<noteq> []"
proof -
  let ?P = "\<lambda>e. de_dagId e = b_dagId body \<and> de_sourceId e = b_sourceNodeId body
                 \<and> de_targetId e = b_targetNodeId body"
  show "length (events st') = length (events st)"
    using assms by (auto simp: derive_edge_def Let_def split: if_splits option.splits)
  show "dagEdges st' = dagEdges st @ (case ce of None \<Rightarrow> [] | Some e \<Rightarrow> [e])"
    using assms by (auto simp: derive_edge_def Let_def split: if_splits option.splits)
  show "edges_between st (b_dagId body) (b_sourceNodeId body) (b_targetNodeId body) = []
           \<and> de_dagId e = b_dagId body \<and> de_sourceId e = b_sourceNodeId body
           \<and> de_targetId e = b_targetNodeId body \<and> de_label e = Some (trim (b_title body))
           \<and> de_createdFromEventId e = Some (ev_id ev)" if "ce = Some e" for e
  proof -
    from assms that have n: "find ?P (dagEdges st) = None"
      by (auto simp: derive_edge_def Let_def split: if_splits option.splits)
    then have "edges_between st (b_dagId body) (b_sourceNodeId body) (b_targetNodeId body) = []"
      by (simp only: find_None_filter edges_between_def)
    moreover from assms that n have "e = \<lparr>de_id = nid, de_dagId = b_dagId body,
                      de_sourceId = b_sourceNodeId body, de_targetId = b_targetNodeId body,
                      de_relationshipTypeId = None, de_label = Some (trim (b_title body)),
                      de_sourceHandle = None, de_targetHandle = None,
                      de_createdFromEventId = Some (ev_id ev)\<rparr>"
      by (auto simp: derive_edge_def Let_def split: if_splits)
    ultimately show ?thesis by simp
  qed
  show "edges_between st (b_dagId body) (b_sourceNodeId body) (b_targetNodeId body) \<noteq> []"
    if "ce = None" "b_createEdge body" "b_sourceNodeId body \<noteq> []" "b_targetNodeId body \<noteq> []"
  proof -
    from assms that have "find ?P (dagEdges st) \<noteq> None"
      by (auto simp: derive_edge_def Let_def split: if_splits option.splits)
    then show ?thesis by (simp only: find_None_filter edges_between_def not_False_eq_True)
  qed
qed

text \<open>The steps of a request that succeeds.\<close>

lemma POST_events_success:
  assumes "POST_events st ids body = (Inr (ev, ce), st')"
  obtains tid st1 st2 where
    "event_checks st body = None"
    "resolve_eventType st (new_eventTypeId ids) body = Inr (tid, st1)"
    "b_date body \<noteq> DateInvalid"
    "create_event st1 (new_eventId ids) body tid
        (case b_date body of DateAt t \<Rightarrow> Some t | _ \<Rightarrow> None)
        (newSortOrder st1 (b_dagId body) (case b_date body of DateAt t \<Rightarrow> Some t | _ \<Rightarrow> None)
           (b_seriesDay body)) = Inr (ev, st2)"
    "derive_edge st2 (new_edgeId ids) body ev = Inr (ce, st')"
  using assms unfolding POST_events_def Let_def
  by (auto split: option.splits sum.splits if_splits prod.splits)

text \<open>Whatever the outcome, a request adds at most one edge, and only between a source and
  a target that no edge of the graph joined.\<close>

lemma POST_events_edges:
  "dagEdges (snd (POST_events st ids body)) = dagEdges st
   \<or> (\<exists>e. dagEdges (snd (POST_events st ids body)) = dagEdges st @ [e]
          \<and> de_dagId e = b_dagId body \<and> de_sourceId e = b_sourceNodeId body
          \<and> de_targetId e = b_targetNodeId body
          \<and> edges_between st (b_dagId body) (b_sourceNodeId body) (b_targetNodeId body) = [])"
proof (cases "event_checks st body")
  case (Some f)
  then show ?thesis by (simp add: POST_events_def)
next
  case None
  show ?thesis
  proof (cases "resolve_eventType st (new_eventTypeId ids) body")
    case (Inl e)
    with None show ?thesis by (simp add: POST_events_def)
  next
    case (Inr p)
    obtain tid st1 where p: "p = (tid, st1)" by (cases p)
    note r = Inr [unfolded p]
    note k1 = resolve_eventType_keeps [OF r]
    show ?thesis
    proof (cases "b_date body = DateInvalid")
      case True
      with None r k1 show ?thesis by (simp add: POST_events_def)
    next
      case False
      let ?d = "case b_date body of DateAt t \<Rightarrow> Some t | _ \<Rightarrow> None"
      let ?c = "create_event st1 (new_eventId ids) body tid ?d
                  (newSortOrder st1 (b_dagId body) ?d (b_seriesDay body))"
      show ?thesis
      proof (cases ?c)
        case (Inl e)
        with None r False k1 show ?thesis by (simp add: POST_events_def Let_def)
      next
        case (Inr q)
        obtain ev st2 where q: "q = (ev, st2)" by (cases q)
        note c = Inr [unfolded q]
        note k2 = create_event_result [OF c]
        show ?thesis
        proof (cases "derive_edge st2 (new_edgeId ids) body ev")
          case (Inl e)
          with None r False c k1 k2 show ?thesis by (simp add: POST_events_def Let_def)
        next
          case (Inr w)
          obtain ce st3 where w: "w = (ce, st3)" by (cases w)
          note d = Inr [unfolded w]
          from None r False c d have s: "snd (POST_events st ids body) = st3"
            by (simp add: POST_events_def Let_def)
          have eb: "edges_between st2 g a b = edges_between st g a b" for g a b
            using k1 k2 by (simp add: edges_between_def)
          show ?thesis
          proof (cases ce)
            case None
            with derive_edge_result(2) [OF d] k1 k2 s show ?thesis by simp
          next
            case (Some e)
            from derive_edge_result(3) [OF d Some] derive_edge_result(2) [OF d] Some k1 k2 s eb
            show ?thesis by simp
          qed
        qed
      qed
    qed
  qed
qed

lemma POST_events_edge_bound:
  "length (edges_between (snd (POST_events st ids body)) g a b) \<le> max 1 (length (edges_between st g a b))"
proof -
  from POST_events_edges [of st ids body]
  consider "dagEdges (snd (POST_events st ids body)) = dagEdges st"
    | e where "dagEdges (snd (POST_events st ids body)) = dagEdges st @ [e]"
        "de_dagId e = b_dagId body" "de_sourceId e = b_sourceNodeId body"
        "de_targetId e = b_targetNodeId body"
        "edges_between st (b_dagId body) (b_sourceNodeId body) (b_targetNodeId body) = []"
    by blast
  then show ?thesis
  proof cases
    case 1
    then show ?thesis by (simp add: edges_between_def)
  next
    case 2
    show ?thesis
    proof (cases "g = b_dagId body \<and> a = b_sourceNodeId body \<and> b = b_targetNodeId body")
      case True
      with 2 show ?thesis by (simp add: edges_between_def)
    next
      case False
      with 2 show ?thesis by (auto simp: edges_between_def)
    qed
  qed
qed

lemma event_checks_status: "event_checks st body = Some f \<Longrightarrow> fst f = 400"
  by (auto simp: event_checks_def split: if_splits)

lemma create_event_v1_result:
  assumes "create_event_v1 st nid body tid d k = Inr (ev, st2)"
  shows "events st2 = events st @ [ev]" "dagEdges st2 = dagEdges st"
  using assms by (auto simp: create_event_v1_def Let_def split: if_splits)

lemma edges_between_append_bound:
  assumes "dagEdges st' = dagEdges st
   \<or> (\<exists>e. dagEdges st' = dagEdges st @ [e]
          \<and> de_dagId e = g0 \<and> de_sourceId e = a0 \<and> de_targetId e = b0
          \<and> edges_between st g0 a0 b0 = [])"
  shows "length (edges_between st' g a b) \<le> max 1 (length (edges_between st g a b))"
  using assms
proof
  assume "dagEdges st' = dagEdges st"
  then show ?thesis by (simp add: edges_between_def)
next
  assume "\<exists>e. dagEdges st' = dagEdges st @ [e]
          \<and> de_dagId e = g0 \<and> de_sourceId e = a0 \<and> de_targetId e = b0
          \<and> edges_between st g0 a0 b0 = []"
  then obtain e where e: "dagEdges st' = dagEdges st @ [e]"
    "de_dagId e = g0" "de_sourceId e = a0" "de_targetId e = b0" "edges_between st g0 a0 b0 = []"
    by blast
  show ?thesis
  proof (cases "g = g0 \<and> a = a0 \<and> b = b0")
    case True
    with e show ?thesis by (simp add: edges_between_def)
  next
    case False
    with e show ?thesis by (auto simp: edges_between_def)
  qed
qed

lemma derive_edge_edges:
  assumes "derive_edge st2 nid body ev = Inr (ce, st3)"
  shows "dagEdges st3 = dagEdges st2
   \<or> (\<exists>e. dagEdges st3 = dagEdges st2 @ [e]
          \<and> de_dagId e = b_dagId body \<and> de_sourceId e = b_sourceNodeId body
          \<and> de_targetId e = b_targetNodeId body
          \<and> edges_between st2 (b_dagId body) (b_sourceNodeId body) (b_targetNodeId body) = [])"
proof (cases ce)
  case None
  with derive_edge_result(2) [OF assms] show ?thesis by simp
next
  case (Some e)
  from derive_edge_result(3) [OF assms Some] derive_edge_result(2) [OF assms] Some
  show ?thesis by simp
qed

lemma POST_events_v1_edges:
  "dagEdges (snd (POST_events_v1 st ids body)) = dagEdges st
   \<or> (\<exists>e. dagEdges (snd (POST_events_v1 st ids body)) = dagEdges st @ [e]
          \<and> de_dagId e = b_dagId body \<and> de_sourceId e = b_sourceNodeId body
          \<and> de_targetId e = b_targetNodeId body
          \<and> edges_between st (b_dagId body) (b_sourceNodeId body) (b_targetNodeId body) = [])"
proof (cases "event_checks_v1 st body")
  case (Some f)
  then show ?thesis by (simp add: POST_events_v1_def)
next
  case None
  show ?thesis
  proof (cases "resolve_eventType st (new_eventTypeId ids) body")
    case (Inl e)
    with None show ?thesis by (simp add: POST_events_v1_def)
  next
    case (Inr p)
    obtain tid st1 where p: "p = (tid, st1)" by (cases p)
    note r = Inr [unfolded p]
    note k1 = resolve_eventType_keeps [OF r]
    show ?thesis
    proof (cases "b_date body")
      case DateAbsent
      with None r k1 show ?thesis by (simp add: POST_events_v1_def)
    next
      case DateInvalid
      with None r k1 show ?thesis by (simp add: POST_events_v1_def)
    next
      case (DateAt t)
      let ?c = "create_event_v1 st1 (new_eventId ids) body tid t
                  (newSortOrder st1 (b_dagId body) (Some t) None)"
      show ?thesis
      proof (cases ?c)
        case (Inl e)
        with None r DateAt k1 show ?thesis by (simp add: POST_events_v1_def Let_def)
      next
        case (Inr q)
        obtain ev st2 where q: "q = (ev, st2)" by (cases q)
        note c = Inr [unfolded q]
        note k2 = create_event_v1_result [OF c]
        have eb: "edges_between st2 g a b = edges_between st g a b" for g a b
          using k1 k2 by (simp add: edges_between_def)
        show ?thesis
        proof (cases "derive_edge st2 (new_edgeId ids) body ev")
          case (Inl e)
          with None r DateAt c k1 k2 show ?thesis by (simp add: POST_events_v1_def Let_def)
        next
          case (Inr w)
          obtain ce st3 where w: "w = (ce, st3)" by (cases w)
          note d = Inr [unfolded w]
          from None r DateAt c d have s: "snd (POST_events_v1 st ids body) = st3"
            by (simp add: POST_events_v1_def Let_def)
          from derive_edge_edges [OF d] k1 k2 eb show ?thesis unfolding s by simp
        qed
      qed
    qed
  qed
qed

subsection \<open>The claims about the create-event route\<close>

text \<open>
  C3.  Whatever the request and its outcome, a call of the create-event route (in either
  variant) leaves, for every graph and every ordered pair of nodes, at most one edge where
  there was at most one: it adds an edge only for its own pair, and only when the graph
  has none for it.
  Two successful calls with the same source, target and \<open>createEdge\<close> set therefore
  store two events, and the second call finds the edge of the pair, returns no created
  edge and leaves the edge table as it was; when the graph had no edge for the pair, the
  first call creates the single one, labelled with the trimmed title and tagged with the
  first event.
\<close>

theorem createEvent_derives_edge_once:
  "(\<forall>g a b. length (edges_between (snd (POST_events st ids body)) g a b)
              \<le> max 1 (length (edges_between st g a b)))
   \<and> (\<forall>g a b. length (edges_between (snd (POST_events_v1 st ids body)) g a b)
              \<le> max 1 (length (edges_between st g a b)))
   \<and> (POST_events st ids body = (Inr (ev1, ce1), st1)
        \<and> POST_events st1 ids' body = (Inr (ev2, ce2), st2)
        \<and> b_createEdge body \<and> b_sourceNodeId body \<noteq> [] \<and> b_targetNodeId body \<noteq> []
      \<longrightarrow> ce2 = None \<and> dagEdges st2 = dagEdges st1
          \<and> events st2 = events st @ [ev1\<lparr>ev_createdEdgeId := map_option de_id ce1\<rparr>, ev2]
          \<and> (edges_between st (b_dagId body) (b_sourceNodeId body) (b_targetNodeId body) = []
               \<longrightarrow> (\<exists>e. ce1 = Some e
                      \<and> edges_between st2 (b_dagId body) (b_sourceNodeId body) (b_targetNodeId body) = [e]
                      \<and> de_label e = Some (trim (b_title body))
                      \<and> de_createdFromEventId e = Some (ev_id ev1)))
          \<and> (edges_between st (b_dagId body) (b_sourceNodeId body) (b_targetNodeId body) \<noteq> []
               \<longrightarrow> ce1 = None \<and> dagEdges st2 = dagEdges st))"
proof (intro conjI)
  show "\<forall>g a b. length (edges_between (snd (POST_events st ids body)) g a b)
              \<le> max 1 (length (edges_between st g a b))"
    by (simp only: POST_events_edge_bound simp_thms)
next
  show "\<forall>g a b. length (edges_between (snd (POST_events_v1 st ids body)) g a b)
              \<le> max 1 (length (edges_between st g a b))"
    using edges_between_append_bound [OF POST_events_v1_edges] by blast
next
  let ?g = "b_dagId body" and ?s = "b_sourceNodeId body" and ?t = "b_targetNodeId body"
  show "POST_events st ids body = (Inr (ev1, ce1), st1)
        \<and> POST_events st1 ids' body = (Inr (ev2, ce2), st2)
        \<and> b_createEdge body \<and> b_sourceNodeId body \<noteq> [] \<and> b_targetNodeId body \<noteq> []
      \<longrightarrow> ce2 = None \<and> dagEdges st2 = dagEdges st1
          \<and> events st2 = events st @ [ev1\<lparr>ev_createdEdgeId := map_option de_id ce1\<rparr>, ev2]
          \<and> (edges_between st ?g ?s ?t = []
               \<longrightarrow> (\<exists>e. ce1 = Some e \<and> edges_between st2 ?g ?s ?t = [e]
                      \<and> de_label e = Some (trim (b_title body))
                      \<and> de_createdFromEventId e = Some (ev_id ev1)))
          \<and> (edges_between st ?g ?s ?t \<noteq> [] \<longrightarrow> ce1 = None \<and> dagEdges st2 = dagEdges st)"
  proof
    assume a: "POST_events st ids body = (Inr (ev1, ce1), st1)
        \<and> POST_events st1 ids' body = (Inr (ev2, ce2), st2)
        \<and> b_createEdge body \<and> b_sourceNodeId body \<noteq> [] \<and> b_targetNodeId body \<noteq> []"
    then have p1: "POST_events st ids body = (Inr (ev1, ce1), st1)"
      and p2: "POST_events st1 ids' body = (Inr (ev2, ce2), st2)"
      and req: "b_createEdge body" "?s \<noteq> []" "?t \<noteq> []"
      by simp_all
    from p1 obtain tid sa sb where
      r1: "resolve_eventType st (new_eventTypeId ids) body = Inr (tid, sa)"
      and c1: "create_event sa (new_eventId ids) body tid
        (case b_date body of DateAt t \<Rightarrow> Some t | _ \<Rightarrow> None)
        (newSortOrder sa (b_dagId body) (case b_date body of DateAt t \<Rightarrow> Some t | _ \<Rightarrow> None)
           (b_seriesDay body)) = Inr (ev1, sb)"
      and d1: "derive_edge sb (new_edgeId ids) body ev1 = Inr (ce1, st1)"
      by (rule POST_events_success)
    from p2 obtain tid' sa' sb' where
      r2: "resolve_eventType st1 (new_eventTypeId ids') body = Inr (tid', sa')"
      and c2: "create_event sa' (new_eventId ids') body tid'
        (case b_date body of DateAt t \<Rightarrow> Some t | _ \<Rightarrow> None)
        (newSortOrder sa' (b_dagId body) (case b_date body of DateAt t \<Rightarrow> Some t | _ \<Rightarrow> None)
           (b_seriesDay body)) = Inr (ev2, sb')"
      and d2: "derive_edge sb' (new_edgeId ids') body ev2 = Inr (ce2, st2)"
      by (rule POST_events_success)
    note k1 = resolve_eventType_keeps [OF r1] and e1 = create_event_result [OF c1]
    note k2 = resolve_eventType_keeps [OF r2] and e2 = create_event_result [OF c2]
    have eb_b: "edges_between sb ?g ?s ?t = edges_between st ?g ?s ?t"
      using k1 e1 by (simp add: edges_between_def)
    have eb_b': "edges_between sb' ?g ?s ?t = edges_between st1 ?g ?s ?t"
      using k2 e2 by (simp add: edges_between_def)
    \<comment> \<open>after the first call the pair has an edge\<close>
    have has: "edges_between st1 ?g ?s ?t \<noteq> []"
    proof (cases ce1)
      case None
      from derive_edge_result(4) [OF d1 None req] eb_b derive_edge_result(2) [OF d1] None
      show ?thesis by (simp add: edges_between_def)
    next
      case (Some e)
      from derive_edge_result(3) [OF d1 Some] derive_edge_result(2) [OF d1] Some
      show ?thesis by (simp add: edges_between_def)
    qed
    \<comment> \<open>so the second call creates none\<close>
    have ce2: "ce2 = None"
    proof (cases ce2)
      case None
      then show ?thesis .
    next
      case (Some e)
      from derive_edge_result(3) [OF d2 Some] eb_b' has show ?thesis by simp
    qed
    with derive_edge_result(2) [OF d2] k2 e2 have edges2: "dagEdges st2 = dagEdges st1" by simp
    \<comment> \<open>the events\<close>
    have ev_b: "events sb = events st @ [ev1]" using k1 e1 by simp
    have ev_1: "events st1 = events st @ [ev1\<lparr>ev_createdEdgeId := map_option de_id ce1\<rparr>]"
    proof (cases ce1)
      case None
      with d1 have "st1 = sb"
        by (auto simp: derive_edge_def Let_def split: if_splits option.splits)
      with ev_b None e1(4) show ?thesis by simp
    next
      case (Some e)
      from d1 Some have "events st1 = map (\<lambda>x. if ev_id x = ev_id ev1
                                              then x\<lparr>ev_createdEdgeId := Some (de_id e)\<rparr>
                                              else x) (events sb)"
        by (auto simp: derive_edge_def Let_def split: if_splits option.splits)
      moreover from c1 k1 have "ev_id ev1 \<notin> set (map ev_id (events st))"
        by (auto simp: create_event_def Let_def split: if_splits)
      then have "ev_id x \<noteq> ev_id ev1" if "x \<in> set (events st)" for x
        using that by (metis image_eqI set_map)
      then have "map (\<lambda>x. if ev_id x = ev_id ev1
                          then x\<lparr>ev_createdEdgeId := Some (de_id e)\<rparr> else x) (events st) = events st"
        by (intro map_idI) simp
      ultimately show ?thesis using ev_b Some by simp
    qed
    from ce2 d2 have "st2 = sb'"
      by (auto simp: derive_edge_def Let_def split: if_splits option.splits)
    with k2 e2 ev_1
    have evs: "events st2 = events st @ [ev1\<lparr>ev_createdEdgeId := map_option de_id ce1\<rparr>, ev2]"
      by simp
    have none: "\<exists>e. ce1 = Some e \<and> edges_between st2 ?g ?s ?t = [e]
                      \<and> de_label e = Some (trim (b_title body))
                      \<and> de_createdFromEventId e = Some (ev_id ev1)"
      if emp: "edges_between st ?g ?s ?t = []"
    proof (cases ce1)
      case None
      from derive_edge_result(4) [OF d1 None req] eb_b emp show ?thesis by simp
    next
      case (Some e)
      from derive_edge_result(3) [OF d1 Some] derive_edge_result(2) [OF d1] Some edges2 emp k1 e1
      show ?thesis by (simp add: edges_between_def)
    qed
    have some: "ce1 = None \<and> dagEdges st2 = dagEdges st" if ne: "edges_between st ?g ?s ?t \<noteq> []"
    proof (cases ce1)
      case None
      with derive_edge_result(2) [OF d1] edges2 k1 e1 show ?thesis by simp
    next
      case (Some e)
      from derive_edge_result(3) [OF d1 Some] eb_b ne show ?thesis by simp
    qed
    from ce2 edges2 evs none some
    show "ce2 = None \<and> dagEdges st2 = dagEdges st1
          \<and> events st2 = events st @ [ev1\<lparr>ev_createdEdgeId := map_option de_id ce1\<rparr>, ev2]
          \<and> (edges_between st ?g ?s ?t = []
               \<longrightarrow> (\<exists>e. ce1 = Some e \<and> edges_between st2 ?g ?s ?t = [e]
                      \<and> de_label e = Some (trim (b_title body))
                      \<and> de_createdFromEventId e = Some (ev_id ev1)))
          \<and> (edges_between st ?g ?s ?t \<noteq> [] \<longrightarrow> ce1 = None \<and> dagEdges st2 = dagEdges st)"
      by blast
  qed
qed

theorem createEvent_derives_edge_once_witness:
  "snd (projr (fst (POST_events (snd (POST_events sample_events (sample_ids ''8'') (sample_body ''n1'' ''n2'')))
                      (sample_ids ''9'') (sample_body ''n1'' ''n2'')))) = None
   \<and> map de_id (dagEdges (snd (POST_events (snd (POST_events sample_events (sample_ids ''8'')
                                                   (sample_body ''n1'' ''n2'')))
                                   (sample_ids ''9'') (sample_body ''n1'' ''n2'')))) = [''x8'']
   \<and> map ev_id (events (snd (POST_events (snd (POST_events sample_events (sample_ids ''8'')
                                                   (sample_body ''n1'' ''n2'')))
                                   (sample_ids ''9'') (sample_body ''n1'' ''n2''))))
       = [''v1'', ''v2'', ''v3'', ''v8'', ''v9'']"
proof -
  let ?b = "sample_body ''n1'' ''n2''"
  let ?p1 = "POST_events sample_events (sample_ids ''8'') ?b"
  let ?p2 = "POST_events (snd ?p1) (sample_ids ''9'') ?b"
  have a1: "?p1 = (Inr (fst (projr (fst ?p1)), snd (projr (fst ?p1))), snd ?p1)" by code_simp
  have a2: "?p2 = (Inr (fst (projr (fst ?p2)), snd (projr (fst ?p2))), snd ?p2)" by code_simp
  have rq: "b_createEdge ?b \<and> b_sourceNodeId ?b \<noteq> [] \<and> b_targetNodeId ?b \<noteq> []"
    by (simp add: sample_body_def)
  from createEvent_derives_edge_once [of sample_events "sample_ids ''8''" ?b
      "fst (projr (fst ?p1))" "snd (projr (fst ?p1))" "snd ?p1" "sample_ids ''9''"
      "fst (projr (fst ?p2))" "snd (projr (fst ?p2))" "snd ?p2"] a1 a2 rq
  have "snd (projr (fst ?p2)) = None \<and> dagEdges (snd ?p2) = dagEdges (snd ?p1)"
    by blast
  moreover have "map de_id (dagEdges (snd ?p1)) = [''x8'']" by code_simp
  moreover have "map ev_id (events (snd ?p2)) = [''v1'', ''v2'', ''v3'', ''v8'', ''v9'']" by code_simp
  ultimately show ?thesis by simp
qed

text \<open>
  C4.  A create-event request whose source node id, or whose target node id, is given and
  is not the id of a node of the request's graph fails with status 400 and leaves the
  store as it was.  When the request supplies the fields checked before the nodes
  (title, date or series day or source graph, event type, graph id), the error is the
  route's not-found error: "Source node not found in this DAG" when the source is at
  fault, otherwise "Target node not found in this DAG".  A node of another graph is
  rejected in this way.
\<close>

theorem createEvent_rejects_foreign_nodes:
  assumes "(b_sourceNodeId body \<noteq> [] \<and> \<not> node_in_dag st (b_sourceNodeId body) (b_dagId body))
         \<or> (b_targetNodeId body \<noteq> [] \<and> \<not> node_in_dag st (b_targetNodeId body) (b_dagId body))"
  shows "snd (POST_events st ids body) = st
       \<and> (\<exists>m. fst (POST_events st ids body) = Inl (400, m))
       \<and> (required_fields_given body \<longrightarrow>
            fst (POST_events st ids body) =
              Inl (400, if b_sourceNodeId body \<noteq> [] \<and> \<not> node_in_dag st (b_sourceNodeId body) (b_dagId body)
                        then ''Source node not found in this DAG''
                        else ''Target node not found in this DAG''))"
proof -
  have nf: "findFirst_node st i g = None \<longleftrightarrow> \<not> node_in_dag st i g" for i g
    by (auto simp: findFirst_node_def node_in_dag_def find_None_iff list_ex_iff)
  from assms have "event_checks st body \<noteq> None"
    by (auto simp: event_checks_def nf)
  then obtain f where f: "event_checks st body = Some f" by blast
  from event_checks_status [OF f] f obtain m where c: "event_checks st body = Some (400, m)"
    by (cases f) simp
  have "event_checks st body =
          Some (400, if b_sourceNodeId body \<noteq> [] \<and> \<not> node_in_dag st (b_sourceNodeId body) (b_dagId body)
                     then ''Source node not found in this DAG''
                     else ''Target node not found in this DAG'')"
    if "required_fields_given body"
    using that assms unfolding required_fields_given_def event_checks_def nf
    by (cases "b_title body = []") (auto simp: trim_def split: option.splits)
  with c show ?thesis by (auto simp: POST_events_def)
qed

theorem createEvent_rejects_foreign_nodes_witness:
  "POST_events sample_events (sample_ids ''8'') (sample_body ''n1'' ''m1'')
     = (Inl (400, ''Target node not found in this DAG''), sample_events)
   \<and> node_in_dag sample_events ''m1'' ''g2''"
proof -
  let ?b = "sample_body ''n1'' ''m1''"
  have h: "(b_sourceNodeId ?b \<noteq> [] \<and> \<not> node_in_dag sample_events (b_sourceNodeId ?b) (b_dagId ?b))
         \<or> (b_targetNodeId ?b \<noteq> [] \<and> \<not> node_in_dag sample_events (b_targetNodeId ?b) (b_dagId ?b))"
    by code_simp
  have r: "required_fields_given ?b"
    by (simp add: required_fields_given_def sample_body_def trim_def is_space_def)
  have s: "\<not> (b_sourceNodeId ?b \<noteq> [] \<and> \<not> node_in_dag sample_events (b_sourceNodeId ?b) (b_dagId ?b))"
    by code_simp
  have g2: "node_in_dag sample_events ''m1'' ''g2''" by code_simp
  from createEvent_rejects_foreign_nodes [OF h, of "sample_ids ''8''"] r s
  have "snd (POST_events sample_events (sample_ids ''8'') ?b) = sample_events
      \<and> fst (POST_events sample_events (sample_ids ''8'') ?b) = Inl (400, ''Target node not found in this DAG'')"
    by simp
  with g2 show ?thesis by (simp add: prod_eq_iff)
qed

text \<open>
  C5.  The event returned by a successful create-event request has this sort order: with
  a date, 0 if the graph has no event on the calendar day of that date and otherwise one
  more than the largest sort order among the graph's events on that day; without a date
  but with a series day, the same over the graph's events of that series day.
\<close>

theorem createEvent_sortOrder:
  assumes "POST_events st ids body = (Inr (ev, ce), st')"
  shows "(\<forall>t. b_date body = DateAt t \<longrightarrow>
            (events_on_day st (b_dagId body) t = [] \<longrightarrow> ev_sortOrder ev = 0)
            \<and> (events_on_day st (b_dagId body) t \<noteq> [] \<longrightarrow>
                 ev_sortOrder ev = Max (ev_sortOrder ` set (events_on_day st (b_dagId body) t)) + 1))
       \<and> (\<forall>d. b_date body = DateAbsent \<and> b_seriesDay body = Some d \<longrightarrow>
            (events_on_seriesDay st (b_dagId body) d = [] \<longrightarrow> ev_sortOrder ev = 0)
            \<and> (events_on_seriesDay st (b_dagId body) d \<noteq> [] \<longrightarrow>
                 ev_sortOrder ev = Max (ev_sortOrder ` set (events_on_seriesDay st (b_dagId body) d)) + 1))"
proof -
  let ?d = "case b_date body of DateAt t \<Rightarrow> Some t | _ \<Rightarrow> None"
  from assms obtain tid st1 st2 where
    r: "resolve_eventType st (new_eventTypeId ids) body = Inr (tid, st1)"
    and c: "create_event st1 (new_eventId ids) body tid ?d
              (newSortOrder st1 (b_dagId body) ?d (b_seriesDay body)) = Inr (ev, st2)"
    by (rule POST_events_success)
  from resolve_eventType_keeps(1) [OF r]
  have same: "events_on_day st1 g t = events_on_day st g t"
    "events_on_seriesDay st1 g d = events_on_seriesDay st g d" for g t d
    by (simp_all add: events_on_day_def events_on_seriesDay_def)
  from create_event_result(3) [OF c]
  have so: "ev_sortOrder ev = newSortOrder st1 (b_dagId body) ?d (b_seriesDay body)" .
  have 1: "ev_sortOrder ev = next_sortOrder (events_on_day st (b_dagId body) t)"
    if "b_date body = DateAt t" for t
    using so that by (simp add: newSortOrder_next same)
  have 2: "ev_sortOrder ev = next_sortOrder (events_on_seriesDay st (b_dagId body) d)"
    if "b_date body = DateAbsent \<and> b_seriesDay body = Some d" for d
    using so that by (simp add: newSortOrder_next same)
  from 1 2 show ?thesis by (simp add: next_sortOrder_def)
qed

theorem createEvent_sortOrder_witness:
  "ev_sortOrder (fst (projr (fst (POST_events sample_events (sample_ids ''8'') (sample_body ''n1'' [])))))
     = 3
   \<and> ev_sortOrder (fst (projr (fst (POST_events sample_events (sample_ids ''8'') body_on_empty_day)))) = 0
   \<and> ev_sortOrder (fst (projr (fst (POST_events sample_events (sample_ids ''8'') body_series_day)))) = 0"
proof -
  let ?i = "sample_ids ''8''"
  let ?p1 = "POST_events sample_events ?i (sample_body ''n1'' [])"
  let ?p2 = "POST_events sample_events ?i body_on_empty_day"
  let ?p3 = "POST_events sample_events ?i body_series_day"
  have a1: "?p1 = (Inr (fst (projr (fst ?p1)), snd (projr (fst ?p1))), snd ?p1)" by code_simp
  have a2: "?p2 = (Inr (fst (projr (fst ?p2)), snd (projr (fst ?p2))), snd ?p2)" by code_simp
  have a3: "?p3 = (Inr (fst (projr (fst ?p3)), snd (projr (fst ?p3))), snd ?p3)" by code_simp
  have d1: "b_date (sample_body ''n1'' []) = DateAt 5000" "b_dagId (sample_body ''n1'' []) = ''g1''"
    by (simp_all add: sample_body_def)
  have d2: "b_date body_on_empty_day = DateAt 259200000" "b_dagId body_on_empty_day = ''g1''"
    by (simp_all add: sample_body_def body_on_empty_day_def)
  have d3: "b_date body_series_day = DateAbsent \<and> b_seriesDay body_series_day = Some 4"
    "b_dagId body_series_day = ''g1''"
    by (simp_all add: sample_body_def body_series_day_def)
  have e1: "events_on_day sample_events ''g1'' 5000 \<noteq> []"
    "Max (ev_sortOrder ` set (events_on_day sample_events ''g1'' 5000)) = 2"
    by code_simp+
  have e2: "events_on_day sample_events ''g1'' 259200000 = []" by code_simp
  have e3: "events_on_seriesDay sample_events ''g1'' 4 = []" by code_simp
  from createEvent_sortOrder [OF a1] d1 e1
  have 1: "ev_sortOrder (fst (projr (fst ?p1))) = 3" by simp
  from createEvent_sortOrder [OF a2] d2 e2
  have 2: "ev_sortOrder (fst (projr (fst ?p2))) = 0" by simp
  from createEvent_sortOrder [OF a3] d3 e3
  have 3: "ev_sortOrder (fst (projr (fst ?p3))) = 0" by simp
  from 1 2 3 show ?thesis by blast
qed

end
